theory Spec2Isabelle
  imports Main "HOL-Library.Sublist" "HOL-Library.AList" "HOL-Library.Char_ord"
    "HOL-Library.List_Lexorder"
begin

section \<open>Python values used by the transform stage\<close>

text \<open>
  The transform stage (\<^verbatim>\<open>etl/transform.py\<close>) works on Python strings, on cells of a
  pandas frame and on an rdflib graph. Strings are modelled as \<^typ>\<open>string\<close>, a
  character standing for the code point of its code: the strings of the model are the
  Python strings over the code points below 256. The character classes and the case
  mappings below are Python's on these code points, with the letters, digits and white
  space beyond ASCII. Every exception the source can raise is a value of \<open>py_error\<close>.
\<close>

datatype py_error =
  ValueError | KeyError | IndexError | AttributeError | OverflowError | ParserError
  | Exception

definition ascii_lowercase :: string where
  "ascii_lowercase = ''abcdefghijklmnopqrstuvwxyz''"

definition ascii_uppercase :: string where
  "ascii_uppercase = ''ABCDEFGHIJKLMNOPQRSTUVWXYZ''"

definition digits :: string where
  "digits = ''0123456789''"

text \<open>
  The cased letters from U+00C0 to U+00FE: capital and small letter at the same position.
  The sharp s (U+00DF), the y with diaeresis (U+00FF), the micro sign (U+00B5) and the
  ordinal indicators (U+00AA, U+00BA) are letters too.
\<close>

definition latin1_uppercase :: string where
  "latin1_uppercase =
     [CHR 0xC0, CHR 0xC1, CHR 0xC2, CHR 0xC3, CHR 0xC4, CHR 0xC5, CHR 0xC6, CHR 0xC7,
      CHR 0xC8, CHR 0xC9, CHR 0xCA, CHR 0xCB, CHR 0xCC, CHR 0xCD, CHR 0xCE, CHR 0xCF,
      CHR 0xD0, CHR 0xD1, CHR 0xD2, CHR 0xD3, CHR 0xD4, CHR 0xD5, CHR 0xD6, CHR 0xD8,
      CHR 0xD9, CHR 0xDA, CHR 0xDB, CHR 0xDC, CHR 0xDD, CHR 0xDE]"

definition latin1_lowercase :: string where
  "latin1_lowercase =
     [CHR 0xE0, CHR 0xE1, CHR 0xE2, CHR 0xE3, CHR 0xE4, CHR 0xE5, CHR 0xE6, CHR 0xE7,
      CHR 0xE8, CHR 0xE9, CHR 0xEA, CHR 0xEB, CHR 0xEC, CHR 0xED, CHR 0xEE, CHR 0xEF,
      CHR 0xF0, CHR 0xF1, CHR 0xF2, CHR 0xF3, CHR 0xF4, CHR 0xF5, CHR 0xF6, CHR 0xF8,
      CHR 0xF9, CHR 0xFA, CHR 0xFB, CHR 0xFC, CHR 0xFD, CHR 0xFE]"

text \<open>
  \<^verbatim>\<open>c.isdigit()\<close> also holds of the superscripts one, two and three; \<^verbatim>\<open>c.isalnum()\<close>
  also of the three vulgar fractions. The class \<^verbatim>\<open>\w\<close> of a regular expression is
  \<^verbatim>\<open>isalnum\<close> and the underscore.
\<close>

definition isdigit :: "char \<Rightarrow> bool" where
  "isdigit c = (c \<in> set digits \<or> c \<in> set [CHR 0xB2, CHR 0xB3, CHR 0xB9])"

definition isalpha :: "char \<Rightarrow> bool" where
  "isalpha c = (c \<in> set ascii_lowercase \<or> c \<in> set ascii_uppercase
                \<or> c \<in> set latin1_lowercase \<or> c \<in> set latin1_uppercase
                \<or> c \<in> set [CHR 0xAA, CHR 0xB5, CHR 0xBA, CHR 0xDF, CHR 0xFF])"

definition isalnum :: "char \<Rightarrow> bool" where
  "isalnum c = (isalpha c \<or> isdigit c \<or> c \<in> set [CHR 0xBC, CHR 0xBD, CHR 0xBE])"

definition isspace :: "char \<Rightarrow> bool" where
  "isspace c = (c \<in> set [CHR 0x09, CHR 0x0A, CHR 0x0B, CHR 0x0C, CHR 0x0D,
                          CHR 0x1C, CHR 0x1D, CHR 0x1E, CHR 0x1F, CHR '' '',
                          CHR 0x85, CHR 0xA0])"

text \<open>
  \<^verbatim>\<open>s.lower()\<close>, and \<^verbatim>\<open>s.upper()\<close> as code points: the capitals of the sharp s (two
  letters), of the micro sign (U+039C) and of the y with diaeresis (U+0178) are not below
  256.
\<close>

definition lower_char :: "char \<Rightarrow> char" where
  "lower_char c =
     (case map_of (zip (ascii_uppercase @ latin1_uppercase)
                       (ascii_lowercase @ latin1_lowercase)) c of
        Some d \<Rightarrow> d | None \<Rightarrow> c)"

definition lower :: "string \<Rightarrow> string" where
  "lower s = map lower_char s"

definition code_points :: "string \<Rightarrow> nat list" where
  "code_points s = map of_char s"

definition upper_char :: "char \<Rightarrow> nat list" where
  "upper_char c =
     (case map_of (zip (ascii_lowercase @ latin1_lowercase)
                       (ascii_uppercase @ latin1_uppercase)) c of
        Some d \<Rightarrow> [of_char d]
      | None \<Rightarrow>
          if c = CHR 0xDF then [0x53, 0x53]
          else if c = CHR 0xB5 then [0x39C]
          else if c = CHR 0xFF then [0x178]
          else [of_char c])"

definition upper :: "string \<Rightarrow> nat list" where
  "upper s = concat (map upper_char s)"

text \<open>\<^verbatim>\<open>s.strip()\<close>: white space removed at both ends.\<close>

definition strip :: "string \<Rightarrow> string" where
  "strip s = rev (dropWhile isspace (rev (dropWhile isspace s)))"

text \<open>\<^verbatim>\<open>s.split()\<close>: the maximal runs of characters that are not white space.\<close>

fun split_ws_from :: "string \<Rightarrow> string \<Rightarrow> string list" where
  "split_ws_from cur [] = (if cur = [] then [] else [cur])"
| "split_ws_from cur (c # cs) =
     (if isspace c then (if cur = [] then split_ws_from [] cs else cur # split_ws_from [] cs)
      else split_ws_from (cur @ [c]) cs)"

definition split_ws :: "string \<Rightarrow> string list" where
  "split_ws s = split_ws_from [] s"

text \<open>\<^verbatim>\<open>s.split(sep)\<close> for a separator of one character: never an empty list.\<close>

fun split_on_from :: "char \<Rightarrow> string \<Rightarrow> string \<Rightarrow> string list" where
  "split_on_from sep cur [] = [cur]"
| "split_on_from sep cur (c # cs) =
     (if c = sep then cur # split_on_from sep [] cs else split_on_from sep (cur @ [c]) cs)"

definition split_on :: "char \<Rightarrow> string \<Rightarrow> string list" where
  "split_on sep s = split_on_from sep [] s"

text \<open>\<^verbatim>\<open>s.replace(c, '')\<close> for a single character \<open>c\<close>.\<close>

fun remove_char :: "char \<Rightarrow> string \<Rightarrow> string" where
  "remove_char c [] = []"
| "remove_char c (x # xs) = (if x = c then remove_char c xs else x # remove_char c xs)"

text \<open>
  \<^verbatim>\<open>int(s)\<close> on a string: white space is stripped, one sign is allowed, and the digits
  may be grouped by single underscores. Anything else is a \<open>ValueError\<close>. The white space
  of \<^verbatim>\<open>int\<close> is that of \<^verbatim>\<open>strip\<close> without the four separators U+001C to U+001F, and its
  digits are the ten ASCII digits.
\<close>

definition int_space :: "char \<Rightarrow> bool" where
  "int_space c = (c \<in> set [CHR 0x09, CHR 0x0A, CHR 0x0B, CHR 0x0C, CHR 0x0D, CHR '' '',
                            CHR 0x85, CHR 0xA0])"

definition digit_val :: "char \<Rightarrow> nat" where
  "digit_val c = (case map_of (zip digits [0 ..< 10]) c of Some d \<Rightarrow> d | None \<Rightarrow> 0)"

definition dec_val :: "string \<Rightarrow> nat" where
  "dec_val s = foldl (\<lambda>a c. 10 * a + digit_val c) 0 s"

definition int_body_ok :: "string \<Rightarrow> bool" where
  "int_body_ok b =
     (case b of [] \<Rightarrow> False
      | c # _ \<Rightarrow> c \<in> set digits \<and> last b \<in> set digits
                 \<and> list_all (\<lambda>x. x \<in> set digits \<or> x = CHR ''_'') b
                 \<and> \<not> sublist ''__'' b)"

definition py_int :: "string \<Rightarrow> py_error + int" where
  "py_int s =
     (case rev (dropWhile int_space (rev (dropWhile int_space s))) of
        [] \<Rightarrow> Inl ValueError
      | c # r \<Rightarrow>
          (let body = (if c = CHR ''-'' \<or> c = CHR ''+'' then r else c # r);
               n = int (dec_val (remove_char CHR ''_'' body))
           in if int_body_ok body then Inr (if c = CHR ''-'' then - n else n)
              else Inl ValueError))"

text \<open>\<^verbatim>\<open>str(n)\<close> of an integer (also what an f-string prints).\<close>

fun str_nat :: "nat \<Rightarrow> string" where
  "str_nat n = (if n < 10 then [digits ! n] else str_nat (n div 10) @ [digits ! (n mod 10)])"

definition str_int :: "int \<Rightarrow> string" where
  "str_int i = (if i < 0 then CHR ''-'' # str_nat (nat (- i)) else str_nat (nat i))"

text \<open>
  A cell of a data frame is either missing (\<open>NaN\<close>, what \<^verbatim>\<open>pd.isna\<close> tests) or a value,
  kept by its \<^verbatim>\<open>str()\<close> form. \<^verbatim>\<open>str(nan)\<close> is \<^verbatim>\<open>'nan'\<close>.
\<close>

datatype cell = NaN | Val string

fun str_cell :: "cell \<Rightarrow> string" where
  "str_cell NaN = ''nan''"
| "str_cell (Val s) = s"

type_synonym row = "string \<rightharpoonup> cell"

text \<open>
  \<^verbatim>\<open>template.format(**kwargs)\<close>: a URI template is kept parsed, as literal text and
  named placeholders; a placeholder without an argument is a \<open>KeyError\<close>.
\<close>

datatype seg = Lit string | Field string

fun str_format :: "seg list \<Rightarrow> (string \<times> string) list \<Rightarrow> py_error + string" where
  "str_format [] kw = Inr []"
| "str_format (Lit s # t) kw =
     (case str_format t kw of Inl e \<Rightarrow> Inl e | Inr r \<Rightarrow> Inr (s @ r))"
| "str_format (Field n # t) kw =
     (case map_of kw n of
        None \<Rightarrow> Inl KeyError
      | Some v \<Rightarrow> (case str_format t kw of Inl e \<Rightarrow> Inl e | Inr r \<Rightarrow> Inr (v @ r)))"

text \<open>A list of results evaluated in order, stopping at the first exception.\<close>

fun sequence :: "('e + 'a) list \<Rightarrow> 'e + 'a list" where
  "sequence [] = Inr []"
| "sequence (x # xs) =
     (case x of Inl e \<Rightarrow> Inl e
      | Inr a \<Rightarrow> (case sequence xs of Inl e \<Rightarrow> Inl e | Inr as \<Rightarrow> Inr (a # as)))"

section \<open>RDF graphs and the mapping registry\<close>

datatype node = URIRef string | Literal string string

type_synonym triple = "node \<times> node \<times> node"

type_synonym graph = "triple set"

definition time_ns :: string where
  "time_ns = ''http://example.org/time#''"

definition rdf_type :: node where
  "rdf_type = URIRef ''http://www.w3.org/1999/02/22-rdf-syntax-ns#type''"

definition xsd :: "string \<Rightarrow> string" where
  "xsd n = ''http://www.w3.org/2001/XMLSchema#'' @ n"

text \<open>\<^verbatim>\<open>DATE_FORMATS\<close> of \<^verbatim>\<open>config/ontology_config.py\<close>, and any other format string.\<close>

datatype date_fmt =
  FMT_YYYY | FMT_YYYY_MM | FMT_YYYY_MM_DD | FMT_DD_MMM_YY
  | FMT_ACADEMIC_YEAR | FMT_YYYY_MMM | FMT_YYYY_Q | FMT_other string

record field_details =
  d_property :: node
  d_datatype :: "string option"
  d_mapping :: "(string \<times> string) list option"
  d_valid_values :: "string list option"
  d_object :: bool
  d_class :: "string option"

record mapping =
  m_class :: string
  uri_pattern :: "seg list"
  date_format :: "date_fmt list"
  m_fields :: "(string \<times> field_details) list"

text \<open>
  The library calls of \<^verbatim>\<open>parse_date\<close> whose code is not part of the repository are
  parameters: \<^verbatim>\<open>str(int(float(s)))\<close>, \<^verbatim>\<open>datetime.strptime(s, fmt)\<close> printed with
  \<^verbatim>\<open>'%Y-%m-%d'\<close> when the pattern has a day and with \<^verbatim>\<open>'%Y-%m'\<close> otherwise, and
  \<^verbatim>\<open>dateutil.parser.parse(s)\<close> printed with \<^verbatim>\<open>'%Y-%m'\<close>. So is the lexical form that
  rdflib gives a typed literal: \<open>literal_form L v t\<close> is the text kept by
  \<^verbatim>\<open>Literal(v, datatype=t)\<close>, which rdflib normalises for some datatypes.
\<close>

record pylib =
  float_int_str :: "string \<Rightarrow> py_error + string"
  strptime_strftime :: "date_fmt \<Rightarrow> string \<Rightarrow> py_error + string"
  dateutil_parse :: "string \<Rightarrow> py_error + string"
  literal_form :: "string \<Rightarrow> string \<Rightarrow> string"

text \<open>\<^verbatim>\<open>Literal(v, datatype=t)\<close>.\<close>

definition typed_literal :: "pylib \<Rightarrow> string \<Rightarrow> string \<Rightarrow> node" where
  "typed_literal L v t = Literal (literal_form L v t) t"

text \<open>
  The messages appended to the summary's \<^verbatim>\<open>errors\<close> list: an invalid value for a field,
  a value without a mapping for a field, the text of a caught exception, and a source
  without a mapping configuration.
\<close>

datatype err_msg =
  InvalidValue string string
  | NoMappingFound string string
  | Caught py_error
  | NoMappingConfiguration string

record summary =
  total_rows :: nat
  mapped_rows :: nat
  skipped_dates :: "string set"
  invalid_locations :: "string set"
  errors :: "err_msg list"

section \<open>Date normalisation\<close>

definition quarter_month :: "string \<Rightarrow> py_error + string" where
  "quarter_month q =
     (case map_of [(code_points ''Q1'', ''01''), (code_points ''Q2'', ''04''),
                   (code_points ''Q3'', ''07''), (code_points ''Q4'', ''10'')] (upper q) of
        None \<Rightarrow> Inl KeyError
      | Some m \<Rightarrow> Inr m)"

text \<open>
  One round of the loop of \<^verbatim>\<open>parse_date\<close> over the candidate formats: the branch of the
  format, with \<open>Inr None\<close> when no branch is taken.
\<close>

fun parse_one :: "pylib \<Rightarrow> date_fmt \<Rightarrow> string \<Rightarrow> py_error + string option" where
  "parse_one L FMT_YYYY s = map_sum id Some (float_int_str L s)"
| "parse_one L FMT_ACADEMIC_YEAR s =
     (case py_int (take 4 s) of Inl e \<Rightarrow> Inl e | Inr year \<Rightarrow> Inr (Some (str_int year)))"
| "parse_one L FMT_DD_MMM_YY s = map_sum id Some (strptime_strftime L FMT_DD_MMM_YY s)"
| "parse_one L FMT_YYYY_MM_DD s = map_sum id Some (strptime_strftime L FMT_YYYY_MM_DD s)"
| "parse_one L FMT_YYYY_MM s = map_sum id Some (strptime_strftime L FMT_YYYY_MM s)"
| "parse_one L FMT_YYYY_MMM s = map_sum id Some (dateutil_parse L s)"
| "parse_one L FMT_YYYY_Q s =
     (case split_ws s of
        [year, q] \<Rightarrow>
          (case quarter_month q of
             Inl e \<Rightarrow> Inl e
           | Inr month \<Rightarrow> Inr (Some (year @ ''-'' @ month)))
      | _ \<Rightarrow> Inl ValueError)"
| "parse_one L (FMT_other _) s = Inr None"

text \<open>The loop: only a \<open>ValueError\<close> moves on to the next format.\<close>

fun parse_formats :: "pylib \<Rightarrow> string \<Rightarrow> date_fmt list \<Rightarrow> py_error + string option" where
  "parse_formats L s [] = Inr None"
| "parse_formats L s (f # fs) =
     (case parse_one L f s of
        Inl e \<Rightarrow> (if e = ValueError then parse_formats L s fs else Inl e)
      | Inr None \<Rightarrow> parse_formats L s fs
      | Inr (Some r) \<Rightarrow> Inr (Some r))"

definition parse_date :: "pylib \<Rightarrow> cell \<Rightarrow> date_fmt list \<Rightarrow> py_error + string option" where
  "parse_date L date_str date_formats =
     (case date_str of
        NaN \<Rightarrow> Inr None
      | Val s \<Rightarrow> parse_formats L (strip s) date_formats)"

text \<open>\<^verbatim>\<open>int(date_str.split('-')[0])\<close>, the year of a normalised date.\<close>

definition year_of :: "string \<Rightarrow> py_error + int" where
  "year_of date_str =
     (case split_on CHR ''-'' date_str of [] \<Rightarrow> Inl IndexError | y # _ \<Rightarrow> py_int y)"

text \<open>
  \<^verbatim>\<open>map_date_to_ontology\<close>: the time entity of a normalised date and the graph with its
  triples added; every exception inside is caught and gives no entity.
\<close>

definition time_entity :: "string \<Rightarrow> string \<Rightarrow> node" where
  "time_entity kind date_str = URIRef (time_ns @ kind @ ''/'' @ date_str)"

definition map_date_to_ontology ::
  "pylib \<Rightarrow> string \<Rightarrow> graph \<Rightarrow> int \<Rightarrow> node option \<times> graph" where
  "map_date_to_ontology L date_str g common_earliest_year =
     (if date_str = [] then (None, g)
      else case year_of date_str of
        Inl e \<Rightarrow> (None, g)
      | Inr year \<Rightarrow>
          if year < common_earliest_year then (None, g)
          else if length date_str = 4 then
            (let date_uri = time_entity ''Year'' date_str
             in (Some date_uri,
                 insert (date_uri, URIRef (time_ns @ ''year''),
                         typed_literal L date_str (xsd ''gYear''))
                   (insert (date_uri, rdf_type, URIRef (time_ns @ ''Year'')) g)))
          else if length date_str = 7 then
            (let date_uri = time_entity ''YearMonth'' date_str
             in (Some date_uri,
                 insert (date_uri, URIRef (time_ns @ ''yearMonth''),
                         typed_literal L date_str (xsd ''gYearMonth''))
                   (insert (date_uri, rdf_type, URIRef (time_ns @ ''YearMonth'')) g)))
          else if length date_str = 10 then
            (let date_uri = time_entity ''FullDate'' date_str
             in (Some date_uri,
                 insert (date_uri, URIRef (time_ns @ ''date''),
                         typed_literal L date_str (xsd ''date''))
                   (insert (date_uri, rdf_type, URIRef (time_ns @ ''FullDate'')) g)))
          else if length date_str = 9 then
            (case split_on CHR ''-'' date_str of
               [start_year, end_year] \<Rightarrow>
                 (let date_uri = time_entity ''AcademicYear'' date_str
                  in (Some date_uri,
                      insert (date_uri, URIRef (time_ns @ ''endYear''),
                              typed_literal L end_year (xsd ''gYear''))
                        (insert (date_uri, URIRef (time_ns @ ''startYear''),
                                 typed_literal L start_year (xsd ''gYear''))
                           (insert (date_uri, rdf_type, URIRef (time_ns @ ''AcademicYear'')) g))))
             | _ \<Rightarrow> (None, g))
          else (None, g))"

section \<open>Locations and URIs\<close>

text \<open>\<^verbatim>\<open>name[:-3] if name.endswith(" ua") else name\<close>.\<close>

definition clean_location_name :: "string \<Rightarrow> string" where
  "clean_location_name location_name =
     (if suffix '' ua'' location_name then take (length location_name - 3) location_name
      else location_name)"

text \<open>The reference list \<^verbatim>\<open>valid_locations\<close> is read from a file, so it is a parameter.\<close>

fun validate_location :: "string list \<Rightarrow> string \<Rightarrow> string option" where
  "validate_location [] location_name = None"
| "validate_location (valid_location # rest) location_name =
     (if sublist (lower valid_location) (lower location_name) then Some valid_location
      else validate_location rest location_name)"

text \<open>
  \<^verbatim>\<open>generate_unique_identifier\<close>: \<open>uid\<close> is the text of the random UUID drawn by the call,
  dashes removed.
\<close>

definition generate_unique_identifier :: "string \<Rightarrow> string \<Rightarrow> string" where
  "generate_unique_identifier pfx uid = pfx @ ''_'' @ uid"

text \<open>\<^verbatim>\<open>re.sub(r'[^\w\-]', '_', value)\<close>, scanning the string from the left.\<close>

definition word_char :: "char \<Rightarrow> bool" where
  "word_char c = (isalnum c \<or> c = CHR ''_'')"

fun re_sub_unsafe :: "string \<Rightarrow> string" where
  "re_sub_unsafe [] = []"
| "re_sub_unsafe (c # cs) =
     (if word_char c \<or> c = CHR ''-'' then c # re_sub_unsafe cs
      else CHR ''_'' # re_sub_unsafe cs)"

definition sanitize_uri :: "string \<Rightarrow> py_error + string" where
  "sanitize_uri v =
     (let w = re_sub_unsafe v
      in case w of
           [] \<Rightarrow> Inl IndexError
         | c # _ \<Rightarrow> Inr (if isdigit c then CHR ''_'' # w else w))"

section \<open>Mapping one row\<close>

text \<open>
  The entity URI of \<^verbatim>\<open>transform_row_to_rdf\<close>: from the row's \<^verbatim>\<open>transaction_id\<close> when the
  row has that column, from a generated identifier otherwise.
\<close>

definition entity_uri :: "row \<Rightarrow> mapping \<Rightarrow> string \<Rightarrow> py_error + node" where
  "entity_uri r m uid =
     (case r ''transaction_id'' of
        Some c \<Rightarrow>
          (let transaction_id = remove_char CHR 0x7D (remove_char CHR 0x7B (str_cell c))
           in map_sum id URIRef (str_format (uri_pattern m) [(''transaction_id'', transaction_id)]))
      | None \<Rightarrow>
          (let unique_id = generate_unique_identifier (last (split_on CHR ''#'' (m_class m))) uid
           in map_sum id URIRef (str_format (uri_pattern m) [(''unique_id'', unique_id)])))"

text \<open>
  What one round of the loop over the declared fields does: go on to the next field,
  return \<open>False\<close>, or raise. The graph and the summary are carried in each case.
\<close>

datatype step = Next graph summary | ReturnFalse graph summary | Raised py_error graph summary

fun step_graph :: "step \<Rightarrow> graph" where
  "step_graph (Next g s) = g"
| "step_graph (ReturnFalse g s) = g"
| "step_graph (Raised e g s) = g"

fun step_summary :: "step \<Rightarrow> summary" where
  "step_summary (Next g s) = s"
| "step_summary (ReturnFalse g s) = s"
| "step_summary (Raised e g s) = s"

text \<open>The checks on a raw value: \<^verbatim>\<open>valid_values\<close> first, then the value \<^verbatim>\<open>mapping\<close>.\<close>

definition checked_value :: "field_details \<Rightarrow> string \<Rightarrow> string \<Rightarrow> err_msg + string" where
  "checked_value details field original_value =
     (if (case d_valid_values details of
            Some vs \<Rightarrow> original_value \<notin> set vs | None \<Rightarrow> False)
      then Inl (InvalidValue original_value field)
      else case d_mapping details of
             Some mp \<Rightarrow>
               (case map_of mp original_value of
                  Some v \<Rightarrow> Inr v
                | None \<Rightarrow> Inl (NoMappingFound original_value field))
           | None \<Rightarrow> Inr original_value)"

definition skip_date :: "string \<Rightarrow> summary \<Rightarrow> summary" where
  "skip_date v s = s\<lparr>skipped_dates := insert v (skipped_dates s)\<rparr>"

definition date_field ::
  "pylib \<Rightarrow> mapping \<Rightarrow> node \<Rightarrow> int \<Rightarrow> field_details \<Rightarrow> string \<Rightarrow> graph \<Rightarrow> summary \<Rightarrow> step" where
  "date_field L m entity common_earliest_year details v g s =
     (case parse_date L (Val v) (date_format m) of
        Inl e \<Rightarrow> Raised e g s
      | Inr None \<Rightarrow> ReturnFalse g (skip_date v s)
      | Inr (Some parsed_date) \<Rightarrow>
          if parsed_date = [] then ReturnFalse g (skip_date v s)
          else case year_of parsed_date of
            Inl e \<Rightarrow> Raised e g s
          | Inr year \<Rightarrow>
              if year \<ge> common_earliest_year then
                (case map_date_to_ontology L parsed_date g common_earliest_year of
                   (found, g') \<Rightarrow>
                     (case found of
                        Some date_uri \<Rightarrow> Next (insert (entity, d_property details, date_uri) g') s
                      | None \<Rightarrow> ReturnFalse g' (skip_date v s)))
              else ReturnFalse g (skip_date v s))"

definition object_field :: "node \<Rightarrow> field_details \<Rightarrow> string \<Rightarrow> graph \<Rightarrow> summary \<Rightarrow> step" where
  "object_field entity details v g s =
     (case sanitize_uri v of
        Inl e \<Rightarrow> Raised e g s
      | Inr sanitized_value \<Rightarrow>
          (case d_class details of
             None \<Rightarrow> Raised KeyError g s
           | Some cls \<Rightarrow>
               (let object_uri = URIRef (cls @ ''/'' @ sanitized_value)
                in Next (insert (object_uri, rdf_type, URIRef cls)
                          (insert (entity, d_property details, object_uri) g)) s)))"

definition data_field ::
  "pylib \<Rightarrow> node \<Rightarrow> field_details \<Rightarrow> string \<Rightarrow> graph \<Rightarrow> summary \<Rightarrow> step" where
  "data_field L entity details v g s =
     Next (insert (entity, d_property details,
                   typed_literal L v
                     (case d_datatype details of Some t \<Rightarrow> t | None \<Rightarrow> xsd ''string'')) g) s"

definition process_field ::
  "pylib \<Rightarrow> row \<Rightarrow> mapping \<Rightarrow> node \<Rightarrow> int \<Rightarrow> string \<times> field_details \<Rightarrow> graph \<Rightarrow> summary \<Rightarrow> step" where
  "process_field L r m entity common_earliest_year fd g s =
     (case fd of (field, details) \<Rightarrow>
        (case r field of
           None \<Rightarrow> Next g s
         | Some NaN \<Rightarrow> Next g s
         | Some (Val original_value) \<Rightarrow>
             (case checked_value details field original_value of
                Inl msg \<Rightarrow> ReturnFalse g (s\<lparr>errors := errors s @ [msg]\<rparr>)
              | Inr v \<Rightarrow>
                  if field = ''date'' then date_field L m entity common_earliest_year details v g s
                  else if d_object details then object_field entity details v g s
                  else data_field L entity details v g s)))"

fun process_fields ::
  "pylib \<Rightarrow> row \<Rightarrow> mapping \<Rightarrow> node \<Rightarrow> int \<Rightarrow> (string \<times> field_details) list \<Rightarrow> graph \<Rightarrow> summary \<Rightarrow> step"
where
  "process_fields L r m entity cey [] g s = Next g s"
| "process_fields L r m entity cey (fd # fds) g s =
     (case process_field L r m entity cey fd g s of
        Next g' s' \<Rightarrow> process_fields L r m entity cey fds g' s'
      | ReturnFalse g' s' \<Rightarrow> ReturnFalse g' s'
      | Raised e g' s' \<Rightarrow> Raised e g' s')"

text \<open>
  \<^verbatim>\<open>transform_row_to_rdf\<close>: the result, the graph and the summary after the call. An
  exception anywhere in the body is caught, its text appended to the errors.
\<close>

definition transform_row_to_rdf ::
  "pylib \<Rightarrow> string \<Rightarrow> row \<Rightarrow> mapping \<Rightarrow> graph \<Rightarrow> int \<Rightarrow> summary \<Rightarrow> bool \<times> graph \<times> summary" where
  "transform_row_to_rdf L uid r m g common_earliest_year s =
     (case entity_uri r m uid of
        Inl e \<Rightarrow> (False, g, s\<lparr>errors := errors s @ [Caught e]\<rparr>)
      | Inr entity \<Rightarrow>
          (case process_fields L r m entity common_earliest_year (m_fields m)
                  (insert (entity, rdf_type, URIRef (m_class m)) g) s of
             Next g' s' \<Rightarrow> (True, g', s')
           | ReturnFalse g' s' \<Rightarrow> (False, g', s')
           | Raised e g' s' \<Rightarrow> (False, g', s'\<lparr>errors := errors s' @ [Caught e]\<rparr>)))"

section \<open>Building and merging the chunk graphs\<close>

text \<open>
  The scratch directory holds the chunk files by chunk number; a file is either Turtle
  text that parses to a graph or unreadable. The directory of transformed files holds one
  graph by source name.
\<close>

datatype ttl_file = Turtle graph | Unreadable

record store =
  intermediate :: "(nat \<times> ttl_file) list"
  transformed :: "(string \<times> graph) list"

definition chunk_file_name :: "nat \<Rightarrow> string" where
  "chunk_file_name n = ''transformed_data_chunk_'' @ str_nat n @ ''.ttl''"

text \<open>
  \<^verbatim>\<open>graph.serialize\<close> to Turtle: rdflib refuses to write a URI that holds an angle
  bracket, a double quote, a space, a brace, a vertical bar, a backslash, a caret or a
  backquote, and raises a plain \<^verbatim>\<open>Exception\<close>.
\<close>

definition valid_uri :: "string \<Rightarrow> bool" where
  "valid_uri u =
     list_all (\<lambda>c. c \<notin> set [CHR 0x3C, CHR 0x3E, CHR 0x22, CHR '' '', CHR 0x7B, CHR 0x7D,
                              CHR 0x7C, CHR 0x5C, CHR 0x5E, CHR 0x60]) u"

fun valid_node :: "node \<Rightarrow> bool" where
  "valid_node (URIRef u) = valid_uri u"
| "valid_node (Literal v t) = True"

definition serialize :: "graph \<Rightarrow> py_error + ttl_file" where
  "serialize g =
     (if \<forall>t \<in> g. valid_node (fst t) \<and> valid_node (fst (snd t)) \<and> valid_node (snd (snd t))
      then Inr (Turtle g) else Inl Exception)"

definition save_graph_to_disk :: "graph \<Rightarrow> nat \<Rightarrow> store \<Rightarrow> py_error + store" where
  "save_graph_to_disk g chunk_number st =
     (case serialize g of
        Inl e \<Rightarrow> Inl e
      | Inr f \<Rightarrow> Inr (st\<lparr>intermediate := AList.update chunk_number f (intermediate st)\<rparr>))"

text \<open>
  The location step of \<^verbatim>\<open>load_and_transform_data\<close>: the column is cleaned (a missing
  column is a \<open>KeyError\<close>, a missing value has no \<^verbatim>\<open>endswith\<close>), validated, the rows
  without a valid location are dropped and the column is replaced by the valid name.
\<close>

definition location_column :: "row list \<Rightarrow> py_error + string list" where
  "location_column chunk =
     sequence (map (\<lambda>r. case r ''location_name'' of
                           None \<Rightarrow> Inl KeyError
                         | Some NaN \<Rightarrow> Inl AttributeError
                         | Some (Val n) \<Rightarrow> Inr (clean_location_name n)) chunk)"

fun dropna_location :: "string list \<Rightarrow> row list \<Rightarrow> string list \<Rightarrow> row list" where
  "dropna_location VL (r # rs) (n # ns) =
     (case validate_location VL n of
        None \<Rightarrow> dropna_location VL rs ns
      | Some valid_location \<Rightarrow>
          r(''location_name'' \<mapsto> Val valid_location) # dropna_location VL rs ns)"
| "dropna_location VL _ _ = []"

text \<open>A row is kept by the location step when its cleaned location name validates.\<close>

definition has_valid_location :: "string list \<Rightarrow> row \<Rightarrow> bool" where
  "has_valid_location VL r =
     (case r ''location_name'' of
        Some (Val n) \<Rightarrow> validate_location VL (clean_location_name n) \<noteq> None
      | _ \<Rightarrow> False)"

definition valid_location_rows :: "string list \<Rightarrow> row list \<Rightarrow> py_error + row list" where
  "valid_location_rows VL chunk =
     (case location_column chunk of
        Inl e \<Rightarrow> Inl e
      | Inr names \<Rightarrow> Inr (dropna_location VL chunk names))"

text \<open>
  The loop over the rows of one chunk; \<open>U i\<close> is the UUID drawn for the row at
  position \<open>i\<close> of the chunk.
\<close>

fun transform_rows ::
  "pylib \<Rightarrow> (nat \<Rightarrow> string) \<Rightarrow> mapping \<Rightarrow> int \<Rightarrow> nat \<Rightarrow> row list \<Rightarrow> graph \<Rightarrow> summary
     \<Rightarrow> graph \<times> summary"
where
  "transform_rows L U m cey i [] g s = (g, s)"
| "transform_rows L U m cey i (r # rs) g s =
     (case transform_row_to_rdf L (U i) r m g cey (s\<lparr>total_rows := total_rows s + 1\<rparr>) of
        (ok, g', s') \<Rightarrow>
          transform_rows L U m cey (Suc i) rs g'
            (if ok then s'\<lparr>mapped_rows := mapped_rows s' + 1\<rparr> else s'))"

text \<open>The loop over the chunks, numbered from \<open>chunk_number\<close> on.\<close>

fun transform_chunks ::
  "pylib \<Rightarrow> string list \<Rightarrow> (nat \<Rightarrow> nat \<Rightarrow> string) \<Rightarrow> mapping \<Rightarrow> int \<Rightarrow> bool \<Rightarrow> nat
     \<Rightarrow> row list list \<Rightarrow> summary \<Rightarrow> store \<Rightarrow> py_error \<times> store + summary \<times> store"
where
  "transform_chunks L VL U m cey has_location chunk_number [] s st = Inr (s, st)"
| "transform_chunks L VL U m cey has_location chunk_number (chunk # rest) s st =
     (if chunk = [] then transform_chunks L VL U m cey has_location (Suc chunk_number) rest s st
      else case (if has_location then valid_location_rows VL chunk else Inr chunk) of
        Inl e \<Rightarrow> Inl (e, st)
      | Inr processed_chunk \<Rightarrow>
          if has_location \<and> processed_chunk = []
          then transform_chunks L VL U m cey has_location (Suc chunk_number) rest s st
          else case transform_rows L (U chunk_number) m cey 0 processed_chunk {} s of
            (chunk_graph, s') \<Rightarrow>
              (case save_graph_to_disk chunk_graph chunk_number st of
                 Inl e \<Rightarrow> Inl (e, st)
               | Inr st' \<Rightarrow>
                   transform_chunks L VL U m cey has_location (Suc chunk_number) rest s' st'))"

definition empty_summary :: summary where
  "empty_summary = \<lparr>total_rows = 0, mapped_rows = 0, skipped_dates = {},
                    invalid_locations = {}, errors = []\<rparr>"

definition load_and_transform_data ::
  "pylib \<Rightarrow> string list \<Rightarrow> (string \<rightharpoonup> mapping) \<Rightarrow> (nat \<Rightarrow> nat \<Rightarrow> string) \<Rightarrow> string
     \<Rightarrow> row list list \<Rightarrow> int \<Rightarrow> store \<Rightarrow> py_error \<times> store + summary \<times> store"
where
  "load_and_transform_data L VL MS U source_name chunks common_earliest_year st =
     (case MS source_name of
        None \<Rightarrow>
          Inr (empty_summary\<lparr>errors := [NoMappingConfiguration source_name]\<rparr>, st)
      | Some m \<Rightarrow>
          transform_chunks L VL U m common_earliest_year
            (''location_name'' \<in> set (map fst (m_fields m))) 0 chunks empty_summary st)"

text \<open>
  \<^verbatim>\<open>combine_ttl_files\<close>: the chunk files of the scratch directory are listed in the order
  of their sorted names; the progress bar refuses a total below one (\<^verbatim>\<open>create_progress_bar\<close>
  raises a \<open>ValueError\<close>); every chunk file is parsed and added to the combined graph;
  then the graph is written and the chunk files are deleted. A file that does not parse
  raises, and so does a combined graph that cannot be written.
\<close>

definition chunk_files :: "store \<Rightarrow> (nat \<times> ttl_file) list" where
  "chunk_files st = sort_key (\<lambda>f. chunk_file_name (fst f)) (intermediate st)"

fun parse_all :: "ttl_file list \<Rightarrow> graph \<Rightarrow> py_error + graph" where
  "parse_all [] combined_graph = Inr combined_graph"
| "parse_all (f # fs) combined_graph =
     (case f of
        Unreadable \<Rightarrow> Inl ParserError
      | Turtle g \<Rightarrow> parse_all fs (combined_graph \<union> g))"

definition combine_ttl_files :: "string \<Rightarrow> store \<Rightarrow> py_error \<times> store + store" where
  "combine_ttl_files source_name st =
     (if length (chunk_files st) < 1 then Inl (ValueError, st)
      else case parse_all (map snd (chunk_files st)) {} of
        Inl e \<Rightarrow> Inl (e, st)
      | Inr combined_graph \<Rightarrow>
          (case serialize combined_graph of
             Inl e \<Rightarrow> Inl (e, st)
           | Inr written \<Rightarrow>
               Inr (st\<lparr>transformed := AList.update source_name combined_graph (transformed st),
                       intermediate := foldr (\<lambda>f. AList.delete (fst f)) (chunk_files st)
                                         (intermediate st)\<rparr>)))"

text \<open>
  \<^verbatim>\<open>OntologyCreator.populate_ontology\<close>: every transformed file is parsed into the
  ontology graph; a file that fails is reported and passed over.
\<close>

fun populate_ontology :: "graph \<Rightarrow> ttl_file list \<Rightarrow> graph" where
  "populate_ontology g [] = g"
| "populate_ontology g (f # fs) =
     populate_ontology (case f of Turtle h \<Rightarrow> g \<union> h | Unreadable \<Rightarrow> g) fs"

section \<open>The common earliest year and the run\<close>

record source =
  source_name :: string
  processed :: "row list list"

text \<open>\<^verbatim>\<open>pd.read_csv(input_file, usecols=['date'])\<close>: a file without the column raises.\<close>

definition date_column :: "row list \<Rightarrow> py_error + cell list" where
  "date_column rows =
     sequence (map (\<lambda>r. case r ''date'' of None \<Rightarrow> Inl ValueError | Some c \<Rightarrow> Inr c) rows)"

definition year_cell :: "string option \<Rightarrow> py_error + int option" where
  "year_cell x =
     (case x of
        None \<Rightarrow> Inr None
      | Some p \<Rightarrow> if p = [] then Inr None else map_sum id Some (year_of p))"

fun not_none :: "'a option list \<Rightarrow> 'a list" where
  "not_none [] = []"
| "not_none (None # xs) = not_none xs"
| "not_none (Some x # xs) = x # not_none xs"

text \<open>
  \<^verbatim>\<open>extract_earliest_year\<close>: the body runs under \<^verbatim>\<open>except Exception\<close>, which gives
  \<open>None\<close>.
\<close>

definition extract_earliest_year :: "pylib \<Rightarrow> (string \<rightharpoonup> mapping) \<Rightarrow> source \<Rightarrow> int option" where
  "extract_earliest_year L MS src =
     (case date_column (concat (processed src)) of
        Inl e \<Rightarrow> None
      | Inr col \<Rightarrow>
          (case sequence (map (\<lambda>x. case MS (source_name src) of
                                     None \<Rightarrow> Inl KeyError
                                   | Some m \<Rightarrow> parse_date L (Val (str_cell x)) (date_format m))
                            col) of
             Inl e \<Rightarrow> None
           | Inr parsed \<Rightarrow>
               (case sequence (map year_cell parsed) of
                  Inl e \<Rightarrow> None
                | Inr years \<Rightarrow>
                    (case not_none years of
                       [] \<Rightarrow> None
                     | y # ys \<Rightarrow> Some (foldl min y ys)))))"

definition find_common_earliest_year ::
  "pylib \<Rightarrow> (string \<rightharpoonup> mapping) \<Rightarrow> source list \<Rightarrow> int option" where
  "find_common_earliest_year L MS srcs =
     (case not_none (map (extract_earliest_year L MS) srcs) of
        [] \<Rightarrow> None
      | y # ys \<Rightarrow> Some (foldl max y ys))"

text \<open>
  The loop of \<^verbatim>\<open>main\<close> over the sources, and \<^verbatim>\<open>main\<close>: the summaries printed and the
  store after the run, or the exception that ends it.
\<close>

fun process_sources ::
  "pylib \<Rightarrow> string list \<Rightarrow> (string \<rightharpoonup> mapping) \<Rightarrow> (string \<Rightarrow> nat \<Rightarrow> nat \<Rightarrow> string) \<Rightarrow> int
     \<Rightarrow> source list \<Rightarrow> store \<Rightarrow> py_error \<times> store + (string \<times> summary) list \<times> store"
where
  "process_sources L VL MS U cey [] st = Inr ([], st)"
| "process_sources L VL MS U cey (src # rest) st =
     (case load_and_transform_data L VL MS (U (source_name src)) (source_name src)
             (processed src) cey st of
        Inl err \<Rightarrow> Inl err
      | Inr (s, st1) \<Rightarrow>
          (case combine_ttl_files (source_name src) st1 of
             Inl err \<Rightarrow> Inl err
           | Inr st2 \<Rightarrow>
               (case process_sources L VL MS U cey rest st2 of
                  Inl err \<Rightarrow> Inl err
                | Inr (sums, st3) \<Rightarrow> Inr ((source_name src, s) # sums, st3))))"

definition main ::
  "pylib \<Rightarrow> string list \<Rightarrow> (string \<rightharpoonup> mapping) \<Rightarrow> (string \<Rightarrow> nat \<Rightarrow> nat \<Rightarrow> string)
     \<Rightarrow> source list \<Rightarrow> store \<Rightarrow> py_error \<times> store + (string \<times> summary) list \<times> store"
where
  "main L VL MS U srcs st =
     (case find_common_earliest_year L MS srcs of
        None \<Rightarrow> Inr ([], st)
      | Some common_earliest_year \<Rightarrow> process_sources L VL MS U common_earliest_year srcs st)"

section \<open>The mappings of the configuration\<close>

text \<open>
  \<^verbatim>\<open>NAMESPACES\<close> and \<^verbatim>\<open>MAPPINGS\<close> of \<^verbatim>\<open>config/ontology_config.py\<close>. A field is a data
  property unless it is declared an object.
\<close>

definition prop_ns :: string where
  "prop_ns = ''http://example.org/property#''"

definition loc_ns :: string where
  "loc_ns = ''http://example.org/location#''"

definition econ_ns :: string where
  "econ_ns = ''http://example.org/economic#''"

definition house_ns :: string where
  "house_ns = ''http://example.org/housing#''"

definition data_property :: "string \<Rightarrow> string \<Rightarrow> field_details" where
  "data_property p t =
     \<lparr>d_property = URIRef p, d_datatype = Some (xsd t), d_mapping = None,
      d_valid_values = None, d_object = False, d_class = None\<rparr>"

definition price_paid :: mapping where
  "price_paid =
     \<lparr>m_class = prop_ns @ ''Property'',
      uri_pattern = [Lit (prop_ns @ ''Property/''), Field ''transaction_id''],
      date_format = [FMT_YYYY_MM_DD],
      m_fields =
        [(''transaction_id'', data_property (prop_ns @ ''transactionId'') ''string''),
         (''price'', data_property (prop_ns @ ''price'') ''integer''),
         (''date'', data_property (time_ns @ ''date'') ''dateTime''),
         (''postcode'', data_property (prop_ns @ ''postcode'') ''string''),
         (''property_type'',
            (data_property (prop_ns @ ''propertyType'') ''string'')
              \<lparr>d_mapping := Some [(''d'', ''detached''), (''s'', ''semi-detached''),
                                  (''t'', ''terraced''), (''f'', ''flats/maisonettes''),
                                  (''o'', ''other'')],
               d_valid_values := Some [''d'', ''s'', ''t'', ''f'', ''o'']\<rparr>),
         (''old_new'',
            (data_property (prop_ns @ ''oldNew'') ''string'')
              \<lparr>d_mapping := Some [(''y'', ''newly built''),
                                  (''n'', ''established residential building'')],
               d_valid_values := Some [''y'', ''n'']\<rparr>),
         (''freehold_leasehold'',
            (data_property (prop_ns @ ''tenure'') ''string'')
              \<lparr>d_mapping := Some [(''f'', ''freehold''), (''l'', ''leasehold'')],
               d_valid_values := Some [''f'', ''l'']\<rparr>),
         (''transaction_category'',
            (data_property (prop_ns @ ''transactionCategory'') ''string'')
              \<lparr>d_mapping := Some [(''a'', ''standard transaction''),
                                  (''b'', ''non-standard transaction'')],
               d_valid_values := Some [''a'', ''b'']\<rparr>),
         (''transaction_status'',
            (data_property (prop_ns @ ''transactionStatus'') ''string'')
              \<lparr>d_valid_values := Some [''a'', ''c'']\<rparr>),
         (''address_1'', data_property (prop_ns @ ''address1'') ''string''),
         (''address_2'', data_property (prop_ns @ ''address2'') ''string''),
         (''location_name'',
            \<lparr>d_property = URIRef (prop_ns @ ''hasLocation''), d_datatype = None,
             d_mapping = None, d_valid_values = None, d_object = True,
             d_class = Some (loc_ns @ ''Location'')\<rparr>)]\<rparr>"

definition additional_dwellings :: mapping where
  "additional_dwellings =
     \<lparr>m_class = house_ns @ ''HousingMarketIndicator'',
      uri_pattern = [Lit (house_ns @ ''HousingMarketIndicator/''), Field ''unique_id''],
      date_format = [FMT_YYYY],
      m_fields =
        [(''location_name'', data_property (prop_ns @ ''hasLocation'') ''string''),
         (''date'', data_property (time_ns @ ''date'') ''gYear''),
         (''additional_dwellings'',
            data_property (house_ns @ ''additionalDwellings'') ''decimal'')]\<rparr>"

definition boe_rate :: mapping where
  "boe_rate =
     \<lparr>m_class = econ_ns @ ''NationalEconomicIndicator'',
      uri_pattern = [Lit (econ_ns @ ''NationalEconomicIndicator/''), Field ''unique_id''],
      date_format = [FMT_DD_MMM_YY],
      m_fields =
        [(''date'', data_property (time_ns @ ''date'') ''date''),
         (''rate'', data_property (econ_ns @ ''rate'') ''decimal'')]\<rparr>"

definition mortgage_rate :: mapping where
  "mortgage_rate =
     \<lparr>m_class = econ_ns @ ''LocalEconomicIndicator'',
      uri_pattern = [Lit (econ_ns @ ''LocalEconomicIndicator/''), Field ''unique_id''],
      date_format = [FMT_YYYY_MM],
      m_fields =
        [(''rate_type'', data_property (econ_ns @ ''rateType'') ''string''),
         (''date'', data_property (time_ns @ ''date'') ''gYearMonth''),
         (''rate'', data_property (econ_ns @ ''rate'') ''decimal'')]\<rparr>"

definition school_count :: mapping where
  "school_count =
     \<lparr>m_class = house_ns @ ''HousingMarketIndicator'',
      uri_pattern = [Lit (house_ns @ ''HousingMarketIndicator/''), Field ''unique_id''],
      date_format = [FMT_ACADEMIC_YEAR],
      m_fields =
        [(''date'', data_property (time_ns @ ''date'') ''gYear''),
         (''location_name'', data_property (prop_ns @ ''hasLocation'') ''string''),
         (''school_count'', data_property (house_ns @ ''schoolCount'') ''integer'')]\<rparr>"

definition unemployment :: mapping where
  "unemployment =
     \<lparr>m_class = econ_ns @ ''NationalEconomicIndicator'',
      uri_pattern = [Lit (econ_ns @ ''NationalEconomicIndicator/''), Field ''unique_id''],
      date_format = [FMT_YYYY, FMT_YYYY_MMM, FMT_YYYY_Q],
      m_fields =
        [(''date'', data_property (time_ns @ ''date'') ''gYear''),
         (''unemployment_rate'', data_property (econ_ns @ ''unemploymentRate'') ''decimal'')]\<rparr>"

definition mappings :: "string \<rightharpoonup> mapping" where
  "mappings =
     map_of [(''price_paid'', price_paid), (''additional_dwellings'', additional_dwellings),
             (''boe_rate'', boe_rate), (''mortgage_rate'', mortgage_rate),
             (''school_count'', school_count), (''unemployment'', unemployment)]"

text \<open>
  A library none of whose three parsing calls accepts its input: each raises a
  \<open>ValueError\<close>, as \<^verbatim>\<open>float\<close>, \<^verbatim>\<open>strptime\<close> and the \<^verbatim>\<open>dateutil\<close> parser do on quarter
  strings such as \<^verbatim>\<open>'2019 Q1'\<close>; a literal keeps the text it is given. It is used for
  concrete runs on quarter and academic-year dates only.
\<close>

definition rejecting :: pylib where
  "rejecting =
     \<lparr>float_int_str = (\<lambda>s. Inl ValueError),
      strptime_strftime = (\<lambda>f s. Inl ValueError),
      dateutil_parse = (\<lambda>s. Inl ValueError),
      literal_form = (\<lambda>v t. v)\<rparr>"

section \<open>Properties of the transform stage\<close>

lemmas char_class_defs =
  isalnum_def isalpha_def isdigit_def isspace_def int_space_def word_char_def digits_def
  ascii_lowercase_def ascii_uppercase_def latin1_lowercase_def latin1_uppercase_def
  upper_def upper_char_def lower_def lower_char_def code_points_def

lemma re_sub_unsafe_map:
  "re_sub_unsafe v =
     map (\<lambda>c. if isalnum c \<or> c = CHR ''-'' \<or> c = CHR ''_'' then c else CHR ''_'') v"
  by (induction v) (auto simp: word_char_def)

lemma re_sub_unsafe_length: "length (re_sub_unsafe v) = length v"
  by (simp add: re_sub_unsafe_map)

text \<open>
  C7, as amended: on a string that is not empty, \<^verbatim>\<open>sanitize_uri\<close> replaces each character
  that is not alphanumeric, a dash or an underscore by one underscore, and puts an
  underscore in front when the result of the substitution starts with a digit; on
  \<^verbatim>\<open>"3 Main St!"\<close> it gives \<^verbatim>\<open>"_3_Main_St_"\<close>. On the empty string it raises.
\<close>

theorem sanitize_uri_one_for_one:
  "(v \<noteq> [] \<longrightarrow>
      sanitize_uri v =
        Inr (let w = map (\<lambda>c. if isalnum c \<or> c = CHR ''-'' \<or> c = CHR ''_'' then c
                                else CHR ''_'') v
             in if isdigit (hd w) then CHR ''_'' # w else w))
   \<and> sanitize_uri [] = Inl IndexError
   \<and> sanitize_uri ''3 Main St!'' = Inr ''_3_Main_St_''"
proof (intro conjI)
  show "v \<noteq> [] \<longrightarrow>
      sanitize_uri v =
        Inr (let w = map (\<lambda>c. if isalnum c \<or> c = CHR ''-'' \<or> c = CHR ''_'' then c
                                else CHR ''_'') v
             in if isdigit (hd w) then CHR ''_'' # w else w)"
    by (cases v) (simp_all add: sanitize_uri_def re_sub_unsafe_map Let_def)
  show "sanitize_uri [] = Inl IndexError"
    by (simp add: sanitize_uri_def)
  show "sanitize_uri ''3 Main St!'' = Inr ''_3_Main_St_''"
    by (simp add: sanitize_uri_def char_class_defs)
qed

theorem sanitize_uri_one_for_one_witness:
  "''7 up'' \<noteq> [] \<and> sanitize_uri ''7 up'' = Inr ''_7_up''
   \<and> sanitize_uri [CHR 0xB2, CHR 0xE9, CHR ''!''] = Inr [CHR ''_'', CHR 0xB2, CHR 0xE9, CHR ''_'']"
proof -
  have h: "''7 up'' \<noteq> []" by simp
  have k: "[CHR 0xB2, CHR 0xE9, CHR ''!''] \<noteq> []" by simp
  from sanitize_uri_one_for_one [of "''7 up''"] h
  have a: "sanitize_uri ''7 up'' =
        Inr (let w = map (\<lambda>c. if isalnum c \<or> c = CHR ''-'' \<or> c = CHR ''_'' then c
                                else CHR ''_'') ''7 up''
             in if isdigit (hd w) then CHR ''_'' # w else w)"
    by blast
  from sanitize_uri_one_for_one [of "[CHR 0xB2, CHR 0xE9, CHR ''!'']"] k
  have b: "sanitize_uri [CHR 0xB2, CHR 0xE9, CHR ''!''] =
        Inr (let w = map (\<lambda>c. if isalnum c \<or> c = CHR ''-'' \<or> c = CHR ''_'' then c
                                else CHR ''_'') [CHR 0xB2, CHR 0xE9, CHR ''!'']
             in if isdigit (hd w) then CHR ''_'' # w else w)"
    by blast
  from a b show ?thesis by (simp add: char_class_defs)
qed

text \<open>
  On the empty string nothing is replaced and no digit leads, yet no string is returned.
\<close>

theorem sanitize_uri_empty_string_counterexample:
  "sanitize_uri [] = Inl IndexError \<and> sanitize_uri [] \<noteq> Inr []"
  by (simp add: sanitize_uri_def)

text \<open>
  C10: on the empty string \<^verbatim>\<open>sanitize_uri\<close> raises (it reads the first character of the
  substituted string); on every other string it returns a string that is not empty.
\<close>

theorem sanitize_uri_empty_raises:
  "sanitize_uri [] = Inl IndexError
   \<and> (\<forall>v. v \<noteq> [] \<longrightarrow> (\<exists>w. sanitize_uri v = Inr w \<and> w \<noteq> []))"
proof
  show "sanitize_uri [] = Inl IndexError"
    by (simp add: sanitize_uri_def)
  show "\<forall>v. v \<noteq> [] \<longrightarrow> (\<exists>w. sanitize_uri v = Inr w \<and> w \<noteq> [])"
  proof (intro allI impI)
    fix v :: string
    assume "v \<noteq> []"
    then obtain c cs where "v = c # cs" by (cases v) auto
    then show "\<exists>w. sanitize_uri v = Inr w \<and> w \<noteq> []"
      by (auto simp: sanitize_uri_def Let_def)
  qed
qed

theorem sanitize_uri_empty_raises_witness:
  "sanitize_uri [] = Inl IndexError \<and> (\<exists>w. sanitize_uri ''a/b'' = Inr w \<and> w \<noteq> [])"
proof -
  have h: "''a/b'' \<noteq> []" by simp
  from sanitize_uri_empty_raises h show ?thesis by blast
qed

lemma validate_location_find:
  "validate_location VL n = List.find (\<lambda>e. sublist (lower e) (lower n)) VL"
  by (induction VL) auto

text \<open>
  C8, as amended: \<^verbatim>\<open>clean_location_name\<close> removes a trailing \<^verbatim>\<open>" ua"\<close> exactly when the
  name ends with it and returns the name unchanged otherwise; \<^verbatim>\<open>validate_location\<close>
  returns the first entry of the reference list whose lower-cased text is contained in the
  lower-cased candidate, and \<open>None\<close> when no entry is. An entry that merely contains the
  candidate does not match.
\<close>

theorem location_clean_validate:
  "clean_location_name (n @ '' ua'') = n
   \<and> (\<not> suffix '' ua'' n \<longrightarrow> clean_location_name n = n)
   \<and> (validate_location VL n = None \<longleftrightarrow> (\<forall>e \<in> set VL. \<not> sublist (lower e) (lower n)))
   \<and> (validate_location VL n = Some e \<longleftrightarrow>
        (\<exists>before after. VL = before @ e # after \<and> sublist (lower e) (lower n)
           \<and> (\<forall>x \<in> set before. \<not> sublist (lower x) (lower n))))"
proof (intro conjI)
  show "clean_location_name (n @ '' ua'') = n"
    by (simp add: clean_location_name_def suffix_def)
  show "\<not> suffix '' ua'' n \<longrightarrow> clean_location_name n = n"
    by (simp add: clean_location_name_def)
  show "validate_location VL n = None \<longleftrightarrow> (\<forall>e \<in> set VL. \<not> sublist (lower e) (lower n))"
    by (auto simp: validate_location_find find_None_iff)
  show "validate_location VL n = Some e \<longleftrightarrow>
        (\<exists>before after. VL = before @ e # after \<and> sublist (lower e) (lower n)
           \<and> (\<forall>x \<in> set before. \<not> sublist (lower x) (lower n)))"
  proof (induction VL)
    case Nil
    then show ?case by simp
  next
    case (Cons a VL)
    show ?case
    proof (cases "sublist (lower a) (lower n)")
      case True
      have "(\<exists>before after. a # VL = before @ e # after \<and> sublist (lower e) (lower n)
           \<and> (\<forall>x \<in> set before. \<not> sublist (lower x) (lower n))) \<longleftrightarrow> a = e"
      proof
        assume "\<exists>before after. a # VL = before @ e # after \<and> sublist (lower e) (lower n)
           \<and> (\<forall>x \<in> set before. \<not> sublist (lower x) (lower n))"
        then obtain before after where b: "a # VL = before @ e # after"
          "\<forall>x \<in> set before. \<not> sublist (lower x) (lower n)" by blast
        show "a = e"
        proof (cases before)
          case Nil
          with b show ?thesis by simp
        next
          case (Cons y ys)
          with b True show ?thesis by auto
        qed
      next
        assume "a = e"
        with True have "a # VL = [] @ e # VL \<and> sublist (lower e) (lower n)
           \<and> (\<forall>x \<in> set []. \<not> sublist (lower x) (lower n))" by simp
        then show "\<exists>before after. a # VL = before @ e # after \<and> sublist (lower e) (lower n)
           \<and> (\<forall>x \<in> set before. \<not> sublist (lower x) (lower n))" by blast
      qed
      with True show ?thesis by simp
    next
      case False
      have "(\<exists>before after. a # VL = before @ e # after \<and> sublist (lower e) (lower n)
           \<and> (\<forall>x \<in> set before. \<not> sublist (lower x) (lower n)))
         \<longleftrightarrow> (\<exists>before after. VL = before @ e # after \<and> sublist (lower e) (lower n)
           \<and> (\<forall>x \<in> set before. \<not> sublist (lower x) (lower n)))" (is "?L \<longleftrightarrow> ?R")
      proof
        assume ?L
        then obtain before after where b: "a # VL = before @ e # after"
          "sublist (lower e) (lower n)"
          "\<forall>x \<in> set before. \<not> sublist (lower x) (lower n)" by blast
        show ?R
        proof (cases before)
          case Nil
          with b False show ?thesis by simp
        next
          case (Cons y ys)
          with b have "VL = ys @ e # after" "\<forall>x \<in> set ys. \<not> sublist (lower x) (lower n)"
            by auto
          with b(2) show ?thesis by blast
        qed
      next
        assume ?R
        then obtain before after where b: "VL = before @ e # after"
          "sublist (lower e) (lower n)"
          "\<forall>x \<in> set before. \<not> sublist (lower x) (lower n)" by blast
        with False have "a # VL = (a # before) @ e # after
           \<and> (\<forall>x \<in> set (a # before). \<not> sublist (lower x) (lower n))" by simp
        with b(2) show ?L by blast
      qed
      with False Cons.IH show ?thesis by simp
    qed
  qed
qed

theorem location_clean_validate_witness:
  "clean_location_name ''Leeds ua'' = ''Leeds''
   \<and> \<not> suffix '' ua'' ''Leeds UA'' \<and> clean_location_name ''Leeds UA'' = ''Leeds UA''
   \<and> validate_location [''London'', ''Leeds''] ''city of leeds'' = Some ''Leeds''
   \<and> validate_location [[CHR 0xC9, CHR ''l'', CHR ''y'']] [CHR 0xE9, CHR ''L'', CHR ''Y'']
       = Some [CHR 0xC9, CHR ''l'', CHR ''y'']"
proof -
  have a: "\<not> suffix '' ua'' ''Leeds UA''"
    by (simp add: suffix_def)
  have b: "[''London'', ''Leeds''] = [''London''] @ ''Leeds'' # []
      \<and> sublist (lower ''Leeds'') (lower ''city of leeds'')
      \<and> (\<forall>x \<in> set [''London'']. \<not> sublist (lower x) (lower ''city of leeds''))"
    by (simp add: char_class_defs sublist_code)
  from location_clean_validate [of "''Leeds''" "[''London'', ''Leeds'']" "''Leeds''"]
  have c: "clean_location_name (''Leeds'' @ '' ua'') = ''Leeds''" by blast
  from location_clean_validate [of "''Leeds UA''" "[''London'', ''Leeds'']" "''Leeds''"] a
  have d: "clean_location_name ''Leeds UA'' = ''Leeds UA''" by blast
  from location_clean_validate [of "''city of leeds''" "[''London'', ''Leeds'']" "''Leeds''"] b
  have e: "validate_location [''London'', ''Leeds''] ''city of leeds'' = Some ''Leeds''"
    by blast
  have b2: "[[CHR 0xC9, CHR ''l'', CHR ''y'']] = [] @ [CHR 0xC9, CHR ''l'', CHR ''y''] # []
      \<and> sublist (lower [CHR 0xC9, CHR ''l'', CHR ''y'']) (lower [CHR 0xE9, CHR ''L'', CHR ''Y''])
      \<and> (\<forall>x \<in> set []. \<not> sublist (lower x) (lower [CHR 0xE9, CHR ''L'', CHR ''Y'']))"
    by (simp add: char_class_defs sublist_code)
  from location_clean_validate
         [of "[CHR 0xE9, CHR ''L'', CHR ''Y'']" "[[CHR 0xC9, CHR ''l'', CHR ''y'']]"
             "[CHR 0xC9, CHR ''l'', CHR ''y'']"] b2
  have f: "validate_location [[CHR 0xC9, CHR ''l'', CHR ''y'']] [CHR 0xE9, CHR ''L'', CHR ''Y'']
             = Some [CHR 0xC9, CHR ''l'', CHR ''y'']"
    by blast
  from a c d e f show ?thesis by simp
qed

text \<open>
  The candidate \<^verbatim>\<open>"Lon"\<close> is contained in the entry \<^verbatim>\<open>"London"\<close>, and is not matched.
\<close>

theorem validate_location_one_direction_counterexample:
  "validate_location [''London''] ''Lon'' = None
   \<and> sublist (lower ''Lon'') (lower ''London'')"
  by (simp add: char_class_defs sublist_code)

lemma parse_all_union:
  "parse_all fs g =
     (if Unreadable \<in> set fs then Inl ParserError else Inr (g \<union> \<Union> {h. Turtle h \<in> set fs}))"
proof (induction fs arbitrary: g)
  case Nil
  then show ?case by simp
next
  case (Cons f fs)
  show ?case
  proof (cases f)
    case (Turtle h)
    have "{x. x = h \<or> Turtle x \<in> set fs} = insert h {x. Turtle x \<in> set fs}" by auto
    with Turtle Cons show ?thesis by (auto simp: Un_assoc)
  next
    case Unreadable
    then show ?thesis by simp
  qed
qed

lemma populate_ontology_union:
  "populate_ontology g fs = g \<union> \<Union> {h. Turtle h \<in> set fs}"
proof (induction fs arbitrary: g)
  case Nil
  then show ?case by simp
next
  case (Cons f fs)
  show ?case
  proof (cases f)
    case (Turtle h)
    have "{x. x = h \<or> Turtle x \<in> set fs} = insert h {x. Turtle x \<in> set fs}" by auto
    with Turtle Cons show ?thesis by (auto simp: Un_assoc)
  next
    case Unreadable
    with Cons show ?thesis by simp
  qed
qed

lemma set_chunk_files: "set (chunk_files st) = set (intermediate st)"
  by (simp add: chunk_files_def)

text \<open>
  C6: merging chunk graphs is commutative and idempotent on triple sets: the chunks
  \<open>[A, B]\<close> and \<open>[B, A]\<close> merge to the same set, a chunk merged with itself gives the
  set of the chunk merged once, and so neither the order in which the chunk files of a
  source are added nor the order in which the source files are added to the ontology
  changes the resulting graph.
\<close>

theorem merge_commutative_idempotent:
  "parse_all [Turtle A, Turtle B] {} = parse_all [Turtle B, Turtle A] {}
   \<and> parse_all [Turtle A, Turtle A] {} = parse_all [Turtle A] {}
   \<and> (set fs = set fs' \<longrightarrow> parse_all fs {} = parse_all fs' {})
   \<and> (set (intermediate st) = set (intermediate st') \<longrightarrow>
        parse_all (map snd (chunk_files st)) {} = parse_all (map snd (chunk_files st')) {})
   \<and> (set fs = set fs' \<longrightarrow> populate_ontology g fs = populate_ontology g fs')"
proof (intro conjI impI)
  show "parse_all [Turtle A, Turtle B] {} = parse_all [Turtle B, Turtle A] {}"
    by (simp add: Un_commute)
  show "parse_all [Turtle A, Turtle A] {} = parse_all [Turtle A] {}"
    by simp
  show "parse_all fs {} = parse_all fs' {}" if "set fs = set fs'"
    using that by (simp add: parse_all_union)
  show "parse_all (map snd (chunk_files st)) {} = parse_all (map snd (chunk_files st')) {}"
    if "set (intermediate st) = set (intermediate st')"
  proof -
    from that have "set (map snd (chunk_files st)) = set (map snd (chunk_files st'))"
      by (simp add: set_chunk_files)
    then show ?thesis by (simp only: parse_all_union)
  qed
  show "populate_ontology g fs = populate_ontology g fs'" if "set fs = set fs'"
    using that by (simp add: populate_ontology_union)
qed

theorem merge_commutative_idempotent_witness:
  "set [Turtle {(URIRef ''a'', rdf_type, URIRef ''c'')}, Unreadable, Turtle {}]
     = set [Turtle {}, Turtle {(URIRef ''a'', rdf_type, URIRef ''c'')}, Unreadable,
            Turtle {(URIRef ''a'', rdf_type, URIRef ''c'')}]
   \<and> populate_ontology {} [Turtle {(URIRef ''a'', rdf_type, URIRef ''c'')}, Unreadable, Turtle {}]
       = populate_ontology {}
           [Turtle {}, Turtle {(URIRef ''a'', rdf_type, URIRef ''c'')}, Unreadable,
            Turtle {(URIRef ''a'', rdf_type, URIRef ''c'')}]
   \<and> parse_all [Turtle {(URIRef ''a'', rdf_type, URIRef ''c'')}, Turtle {}] {}
       = parse_all [Turtle {}, Turtle {(URIRef ''a'', rdf_type, URIRef ''c'')}] {}"
proof -
  have h: "set [Turtle {(URIRef ''a'', rdf_type, URIRef ''c'')}, Unreadable, Turtle {}]
     = set [Turtle {}, Turtle {(URIRef ''a'', rdf_type, URIRef ''c'')}, Unreadable,
            Turtle {(URIRef ''a'', rdf_type, URIRef ''c'')}]"
    by auto
  from merge_commutative_idempotent
         [of "{(URIRef ''a'', rdf_type, URIRef ''c'')}" "{}"
             "[Turtle {(URIRef ''a'', rdf_type, URIRef ''c'')}, Unreadable, Turtle {}]"
             "[Turtle {}, Turtle {(URIRef ''a'', rdf_type, URIRef ''c'')}, Unreadable,
               Turtle {(URIRef ''a'', rdf_type, URIRef ''c'')}]"] h
  show ?thesis by blast
qed

lemma remove_char_filter: "remove_char c s = filter (\<lambda>x. x \<noteq> c) s"
  by (induction s) auto

text \<open>
  C4: under the quarter format a quarter token that is not one of Q1 to Q4 should make
  \<^verbatim>\<open>parse_date\<close> return \<open>None\<close>. The lookup of the token raises a \<open>KeyError\<close>, which the
  \<^verbatim>\<open>except ValueError\<close> of the loop does not catch: on \<^verbatim>\<open>"2019 Q5"\<close> the call raises,
  whatever formats follow. A recognised token in lower case is accepted, and a string
  that does not split into two parts gives \<open>None\<close>.
\<close>

theorem parse_date_quarter_unrecognised_raises:
  "parse_date L (Val ''2019 Q5'') [FMT_YYYY_Q] = Inl KeyError
   \<and> parse_date L (Val ''2019 Q5'') (FMT_YYYY_Q # fs) = Inl KeyError
   \<and> parse_date L (Val ''2019 q3'') [FMT_YYYY_Q] = Inr (Some ''2019-07'')
   \<and> parse_date L (Val ''2019'') [FMT_YYYY_Q] = Inr None"
  by (simp add: parse_date_def strip_def split_ws_def quarter_month_def char_class_defs)

lemma map_date_to_ontology_mono: "g \<subseteq> snd (map_date_to_ontology L p g cey)"
  by (auto simp: map_date_to_ontology_def Let_def split: sum.splits list.splits)

lemma map_date_to_ontology_fst:
  "fst (map_date_to_ontology L p g cey) = fst (map_date_to_ontology L p {} cey)"
  by (auto simp: map_date_to_ontology_def Let_def split: sum.splits list.splits)

lemma map_date_to_ontology_mono':
  "map_date_to_ontology L p g cey = (x, g') \<Longrightarrow> g \<subseteq> g'"
  using map_date_to_ontology_mono [of g L p cey] by simp

lemma date_field_graph: "g \<subseteq> step_graph (date_field L m ent cey d v g s)"
  by (auto simp: date_field_def split: sum.splits option.splits prod.splits
           dest: map_date_to_ontology_mono')

lemma date_field_counts:
  "total_rows (step_summary (date_field L m ent cey d v g s)) = total_rows s
   \<and> mapped_rows (step_summary (date_field L m ent cey d v g s)) = mapped_rows s
   \<and> invalid_locations (step_summary (date_field L m ent cey d v g s)) = invalid_locations s"
  by (auto simp: date_field_def skip_date_def split: sum.splits option.splits prod.splits)

lemma object_field_inv:
  "g \<subseteq> step_graph (object_field ent d v g s) \<and> step_summary (object_field ent d v g s) = s"
  by (auto simp: object_field_def Let_def split: sum.splits option.splits)

lemma data_field_inv:
  "g \<subseteq> step_graph (data_field L ent d v g s) \<and> step_summary (data_field L ent d v g s) = s"
  by (auto simp: data_field_def)

lemma process_field_graph: "g \<subseteq> step_graph (process_field L r m ent cey fd g s)"
  using date_field_graph [of g L m ent cey] object_field_inv [of g ent] data_field_inv [of g L ent]
  by (auto simp: process_field_def split: prod.splits option.splits cell.splits sum.splits)

lemma process_field_counts:
  "total_rows (step_summary (process_field L r m ent cey fd g s)) = total_rows s
   \<and> mapped_rows (step_summary (process_field L r m ent cey fd g s)) = mapped_rows s
   \<and> invalid_locations (step_summary (process_field L r m ent cey fd g s)) = invalid_locations s"
  using date_field_counts [of L m ent cey] object_field_inv [of g ent] data_field_inv [of g L ent]
  by (auto simp: process_field_def split: prod.splits option.splits cell.splits sum.splits)

lemma process_field_skipped:
  "fst fd \<noteq> ''date'' \<Longrightarrow>
     skipped_dates (step_summary (process_field L r m ent cey fd g s)) = skipped_dates s"
  using object_field_inv [of g ent] data_field_inv [of g L ent]
  by (auto simp: process_field_def split: prod.splits option.splits cell.splits sum.splits)

lemma process_fields_graph: "g \<subseteq> step_graph (process_fields L r m ent cey fds g s)"
proof (induction fds arbitrary: g s)
  case Nil
  then show ?case by simp
next
  case (Cons fd fds)
  show ?case
  proof (cases "process_field L r m ent cey fd g s")
    case (Next g' s')
    with process_field_graph [of g L r m ent cey fd s] have "g \<subseteq> g'" by simp
    moreover have "g' \<subseteq> step_graph (process_fields L r m ent cey fds g' s')" by (rule Cons.IH)
    ultimately show ?thesis using Next by auto
  next
    case (ReturnFalse g' s')
    with process_field_graph [of g L r m ent cey fd s] show ?thesis by simp
  next
    case (Raised e g' s')
    with process_field_graph [of g L r m ent cey fd s] show ?thesis by simp
  qed
qed

lemma process_fields_counts:
  "total_rows (step_summary (process_fields L r m ent cey fds g s)) = total_rows s
   \<and> mapped_rows (step_summary (process_fields L r m ent cey fds g s)) = mapped_rows s
   \<and> invalid_locations (step_summary (process_fields L r m ent cey fds g s)) = invalid_locations s"
proof (induction fds arbitrary: g s)
  case Nil
  then show ?case by simp
next
  case (Cons fd fds)
  show ?case
  proof (cases "process_field L r m ent cey fd g s")
    case (Next g' s')
    with process_field_counts [of L r m ent cey fd g s] Cons.IH [of g' s']
    show ?thesis by simp
  next
    case (ReturnFalse g' s')
    with process_field_counts [of L r m ent cey fd g s] show ?thesis by simp
  next
    case (Raised e g' s')
    with process_field_counts [of L r m ent cey fd g s] show ?thesis by simp
  qed
qed

lemma process_fields_skipped:
  "''date'' \<notin> fst ` set fds \<Longrightarrow>
     skipped_dates (step_summary (process_fields L r m ent cey fds g s)) = skipped_dates s"
proof (induction fds arbitrary: g s)
  case Nil
  then show ?case by simp
next
  case (Cons fd fds)
  then have fd: "fst fd \<noteq> ''date''" and rest: "''date'' \<notin> fst ` set fds" by auto
  show ?case
  proof (cases "process_field L r m ent cey fd g s")
    case (Next g' s')
    with process_field_skipped [OF fd, of L r m ent cey g s] Cons.IH [OF rest, of g' s']
    show ?thesis by simp
  next
    case (ReturnFalse g' s')
    with process_field_skipped [OF fd, of L r m ent cey g s] show ?thesis by simp
  next
    case (Raised e g' s')
    with process_field_skipped [OF fd, of L r m ent cey g s] show ?thesis by simp
  qed
qed

lemma process_fields_append:
  "process_fields L r m ent cey (xs @ ys) g s =
     (case process_fields L r m ent cey xs g s of
        Next g' s' \<Rightarrow> process_fields L r m ent cey ys g' s'
      | ReturnFalse g' s' \<Rightarrow> ReturnFalse g' s'
      | Raised e g' s' \<Rightarrow> Raised e g' s')"
  by (induction xs arbitrary: g s) (auto split: step.splits)

lemma transform_row_to_rdf_inv:
  assumes "transform_row_to_rdf L uid r m g cey s = (ok, g', s')"
  shows "g \<subseteq> g' \<and> total_rows s' = total_rows s \<and> mapped_rows s' = mapped_rows s
         \<and> invalid_locations s' = invalid_locations s"
proof (cases "entity_uri r m uid")
  case (Inl e)
  with assms show ?thesis by (auto simp: transform_row_to_rdf_def)
next
  case (Inr ent)
  let ?g0 = "insert (ent, rdf_type, URIRef (m_class m)) g"
  let ?st = "process_fields L r m ent cey (m_fields m) ?g0 s"
  have a: "?g0 \<subseteq> step_graph ?st" by (rule process_fields_graph)
  have b: "total_rows (step_summary ?st) = total_rows s
           \<and> mapped_rows (step_summary ?st) = mapped_rows s
           \<and> invalid_locations (step_summary ?st) = invalid_locations s"
    by (rule process_fields_counts)
  from assms Inr a b show ?thesis
    by (cases ?st) (auto simp: transform_row_to_rdf_def)
qed

text \<open>
  C3, as amended: when a row carries a \<^verbatim>\<open>transaction_id\<close>, the entity URI is the mapping's
  URI template with the placeholder replaced by the identifier's text with every opening
  and closing brace removed; no other character is replaced and no underscore is put in
  front (\<^verbatim>\<open>sanitize_uri\<close> is not applied). The entity gets its type triple in the graph.
\<close>

theorem entity_uri_from_transaction_id:
  "r ''transaction_id'' = Some c \<longrightarrow>
     entity_uri r m uid =
       map_sum id URIRef
         (str_format (uri_pattern m)
            [(''transaction_id'', filter (\<lambda>x. x \<noteq> CHR 0x7B \<and> x \<noteq> CHR 0x7D) (str_cell c))])
     \<and> (uri_pattern m = [Lit b, Field ''transaction_id''] \<longrightarrow>
          entity_uri r m uid =
            Inr (URIRef (b @ filter (\<lambda>x. x \<noteq> CHR 0x7B \<and> x \<noteq> CHR 0x7D) (str_cell c))))
     \<and> (\<forall>u. entity_uri r m uid = Inr u \<longrightarrow>
          (u, rdf_type, URIRef (m_class m)) \<in> fst (snd (transform_row_to_rdf L uid r m g cey s)))"
proof (intro impI conjI allI)
  assume c: "r ''transaction_id'' = Some c"
  have f: "remove_char CHR 0x7D (remove_char CHR 0x7B (str_cell c))
           = filter (\<lambda>x. x \<noteq> CHR 0x7B \<and> x \<noteq> CHR 0x7D) (str_cell c)"
    by (simp add: remove_char_filter conj_commute)
  from c f show e: "entity_uri r m uid =
       map_sum id URIRef
         (str_format (uri_pattern m)
            [(''transaction_id'', filter (\<lambda>x. x \<noteq> CHR 0x7B \<and> x \<noteq> CHR 0x7D) (str_cell c))])"
    by (simp add: entity_uri_def)
  show "entity_uri r m uid =
            Inr (URIRef (b @ filter (\<lambda>x. x \<noteq> CHR 0x7B \<and> x \<noteq> CHR 0x7D) (str_cell c)))"
    if "uri_pattern m = [Lit b, Field ''transaction_id'']"
    using that e by simp
  show "(u, rdf_type, URIRef (m_class m)) \<in> fst (snd (transform_row_to_rdf L uid r m g cey s))"
    if u: "entity_uri r m uid = Inr u" for u
  proof -
    let ?g0 = "insert (u, rdf_type, URIRef (m_class m)) g"
    let ?st = "process_fields L r m u cey (m_fields m) ?g0 s"
    have "?g0 \<subseteq> step_graph ?st" by (rule process_fields_graph)
    with u show ?thesis
      by (cases ?st) (auto simp: transform_row_to_rdf_def)
  qed
qed

theorem entity_uri_from_transaction_id_witness:
  "(Map.empty(''transaction_id'' \<mapsto> Val ''{34222872-B554}'')) ''transaction_id''
      = Some (Val ''{34222872-B554}'')
   \<and> entity_uri (Map.empty(''transaction_id'' \<mapsto> Val ''{34222872-B554}'')) price_paid ''0''
      = Inr (URIRef ''http://example.org/property#Property/34222872-B554'')"
proof -
  have h: "(Map.empty(''transaction_id'' \<mapsto> Val ''{34222872-B554}'')) ''transaction_id''
      = Some (Val ''{34222872-B554}'')" by simp
  have p: "uri_pattern price_paid = [Lit (prop_ns @ ''Property/''), Field ''transaction_id'']"
    by (simp add: price_paid_def)
  from entity_uri_from_transaction_id
         [of "Map.empty(''transaction_id'' \<mapsto> Val ''{34222872-B554}'')"
             "Val ''{34222872-B554}''" price_paid "''0''" "prop_ns @ ''Property/''"] h p
  have "entity_uri (Map.empty(''transaction_id'' \<mapsto> Val ''{34222872-B554}'')) price_paid ''0''
        = Inr (URIRef ((prop_ns @ ''Property/'')
            @ filter (\<lambda>x. x \<noteq> CHR 0x7B \<and> x \<noteq> CHR 0x7D) (str_cell (Val ''{34222872-B554}''))))"
    by blast
  with h show ?thesis by (simp add: prop_ns_def)
qed

text \<open>
  An identifier with a leading digit, a space and a slash goes into the URI as it is,
  where the sanitisation rule would give \<^verbatim>\<open>_3_A_B\<close>.
\<close>

theorem entity_uri_not_sanitized_counterexample:
  "entity_uri (Map.empty(''transaction_id'' \<mapsto> Val ''3 A/B'')) price_paid ''0''
      = Inr (URIRef ''http://example.org/property#Property/3 A/B'')
   \<and> sanitize_uri ''3 A/B'' = Inr ''_3_A_B''"
  by (simp add: entity_uri_def price_paid_def prop_ns_def sanitize_uri_def char_class_defs)

lemma sequence_map_Inr: "sequence (map Inr ys) = Inr ys"
  by (induction ys) auto

lemma sequence_Inr: "sequence xs = Inr ys \<longleftrightarrow> xs = map Inr ys"
proof
  assume "sequence xs = Inr ys"
  then show "xs = map Inr ys"
    by (induction xs arbitrary: ys) (auto split: sum.splits)
next
  assume "xs = map Inr ys"
  then show "sequence xs = Inr ys" by (simp add: sequence_map_Inr)
qed

lemma dropna_location_length:
  "map (\<lambda>r. case r ''location_name'' of
               None \<Rightarrow> Inl KeyError
             | Some NaN \<Rightarrow> Inl AttributeError
             | Some (Val n) \<Rightarrow> Inr (clean_location_name n)) chunk = map Inr names
   \<Longrightarrow> length (dropna_location VL chunk names) = length (filter (has_valid_location VL) chunk)"
proof (induction chunk arbitrary: names)
  case Nil
  then show ?case by simp
next
  case (Cons r rs)
  then obtain n ns where names: "names = n # ns" by (cases names) auto
  with Cons.prems have
    hd: "(case r ''location_name'' of
               None \<Rightarrow> Inl KeyError
             | Some NaN \<Rightarrow> Inl AttributeError
             | Some (Val n) \<Rightarrow> Inr (clean_location_name n)) = Inr n"
    and tl: "map (\<lambda>r. case r ''location_name'' of
               None \<Rightarrow> Inl KeyError
             | Some NaN \<Rightarrow> Inl AttributeError
             | Some (Val n) \<Rightarrow> Inr (clean_location_name n)) rs = map Inr ns"
    by auto
  from hd obtain raw where raw: "r ''location_name'' = Some (Val raw)" "n = clean_location_name raw"
    by (auto split: option.splits cell.splits)
  from Cons.IH [OF tl] names raw show ?case
    by (auto simp: has_valid_location_def split: option.splits)
qed

lemma valid_location_rows_length:
  "valid_location_rows VL chunk = Inr rows \<Longrightarrow>
     length rows = length (filter (has_valid_location VL) chunk)"
  by (auto simp: valid_location_rows_def location_column_def sequence_Inr
           split: sum.splits dest: dropna_location_length)

lemma transform_rows_inv:
  "transform_rows L U m cey i rows g s = (g', s') \<Longrightarrow>
     invalid_locations s' = invalid_locations s \<and> total_rows s' = total_rows s + length rows"
proof (induction rows arbitrary: i g s)
  case Nil
  then show ?case by simp
next
  case (Cons r rs)
  obtain ok g1 s1 where
    t: "transform_row_to_rdf L (U i) r m g cey (s\<lparr>total_rows := total_rows s + 1\<rparr>) = (ok, g1, s1)"
    by (metis prod_cases3)
  from transform_row_to_rdf_inv [OF t]
  have s1: "total_rows s1 = total_rows s + 1" "invalid_locations s1 = invalid_locations s"
    by simp_all
  let ?s2 = "if ok then s1\<lparr>mapped_rows := mapped_rows s1 + 1\<rparr> else s1"
  from Cons.prems t have "transform_rows L U m cey (Suc i) rs g1 ?s2 = (g', s')"
    by simp
  from Cons.IH [OF this] s1 show ?case by simp
qed

lemma transform_chunks_inv:
  "transform_chunks L VL U m cey hl n chunks s st = Inr (s', st') \<Longrightarrow>
     invalid_locations s' = invalid_locations s
     \<and> (hl \<longrightarrow> total_rows s' = total_rows s
                 + length (filter (has_valid_location VL) (concat chunks)))
     \<and> (\<not> hl \<longrightarrow> total_rows s' = total_rows s + length (concat chunks))"
proof (induction chunks arbitrary: n s st)
  case Nil
  then show ?case by simp
next
  case (Cons chunk rest)
  show ?case
  proof (cases "chunk = []")
    case True
    with Cons.prems have "transform_chunks L VL U m cey hl (Suc n) rest s st = Inr (s', st')"
      by simp
    from Cons.IH [OF this] True show ?thesis by simp
  next
    case False
    show ?thesis
    proof (cases hl)
      case True
      from Cons.prems False True obtain pc where
        pc: "valid_location_rows VL chunk = Inr pc"
        by (auto split: sum.splits)
      note len = valid_location_rows_length [OF pc]
      show ?thesis
      proof (cases "pc = []")
        case e: True
        with Cons.prems False True pc
        have "transform_chunks L VL U m cey hl (Suc n) rest s st = Inr (s', st')"
          by simp
        from Cons.IH [OF this] True e len show ?thesis by simp
      next
        case ne: False
        obtain g1 s1 where tr: "transform_rows L (U n) m cey 0 pc {} s = (g1, s1)"
          by (metis surj_pair)
        with Cons.prems False True pc ne
        obtain st1 where "transform_chunks L VL U m cey hl (Suc n) rest s1 st1 = Inr (s', st')"
          by (auto split: sum.splits)
        from Cons.IH [OF this] transform_rows_inv [OF tr] True len show ?thesis by simp
      qed
    next
      case nl: False
      obtain g1 s1 where tr: "transform_rows L (U n) m cey 0 chunk {} s = (g1, s1)"
        by (metis surj_pair)
      with Cons.prems False nl
      obtain st1 where "transform_chunks L VL U m cey hl (Suc n) rest s1 st1 = Inr (s', st')"
        by (auto split: sum.splits)
      from Cons.IH [OF this] transform_rows_inv [OF tr] nl show ?thesis by simp
    qed
  qed
qed

text \<open>
  C9: when \<^verbatim>\<open>load_and_transform_data\<close> returns, the summary's \<^verbatim>\<open>invalid_locations\<close> is
  empty, and for a mapping that declares \<^verbatim>\<open>location_name\<close> the rows counted in
  \<^verbatim>\<open>total_rows\<close> are exactly the rows whose cleaned location name validates: a row that
  fails validation is dropped before the row is mapped.
\<close>

theorem invalid_locations_stay_empty:
  "load_and_transform_data L VL MS U src chunks cey st = Inr (s, st') \<longrightarrow>
     invalid_locations s = {}
     \<and> (\<forall>m. MS src = Some m \<and> ''location_name'' \<in> set (map fst (m_fields m)) \<longrightarrow>
          total_rows s = length (filter (has_valid_location VL) (concat chunks)))"
proof
  assume run: "load_and_transform_data L VL MS U src chunks cey st = Inr (s, st')"
  show "invalid_locations s = {}
     \<and> (\<forall>m. MS src = Some m \<and> ''location_name'' \<in> set (map fst (m_fields m)) \<longrightarrow>
          total_rows s = length (filter (has_valid_location VL) (concat chunks)))"
  proof (cases "MS src")
    case None
    with run show ?thesis
      by (auto simp: load_and_transform_data_def empty_summary_def)
  next
    case (Some m)
    with run have "transform_chunks L VL U m cey (''location_name'' \<in> set (map fst (m_fields m)))
                     0 chunks empty_summary st = Inr (s, st')"
      by (simp add: load_and_transform_data_def)
    from transform_chunks_inv [OF this] Some show ?thesis
      by (auto simp: empty_summary_def)
  qed
qed

theorem invalid_locations_stay_empty_witness:
  "(let X = load_and_transform_data rejecting [''Leeds''] mappings (\<lambda>c i. ''ab12'')
              ''school_count''
              [[Map.empty(''location_name'' \<mapsto> Val ''Leeds ua'', ''date'' \<mapsto> Val ''2019-20'',
                          ''school_count'' \<mapsto> Val ''12''),
                Map.empty(''location_name'' \<mapsto> Val ''Atlantis'', ''date'' \<mapsto> Val ''2019-20'',
                          ''school_count'' \<mapsto> Val ''3'')]]
              2019 \<lparr>intermediate = [], transformed = []\<rparr>
    in \<not> isl X \<and> invalid_locations (fst (projr X)) = {} \<and> total_rows (fst (projr X)) = 1)"
proof -
  define X where "X = load_and_transform_data rejecting [''Leeds''] mappings (\<lambda>c i. ''ab12'')
              ''school_count''
              [[Map.empty(''location_name'' \<mapsto> Val ''Leeds ua'', ''date'' \<mapsto> Val ''2019-20'',
                          ''school_count'' \<mapsto> Val ''12''),
                Map.empty(''location_name'' \<mapsto> Val ''Atlantis'', ''date'' \<mapsto> Val ''2019-20'',
                          ''school_count'' \<mapsto> Val ''3'')]]
              2019 \<lparr>intermediate = [], transformed = []\<rparr>"
  have a: "\<not> isl X" unfolding X_def by code_simp
  then have b: "X = Inr (fst (projr X), snd (projr X))" by (cases X) auto
  have b': "load_and_transform_data rejecting [''Leeds''] mappings (\<lambda>c i. ''ab12'')
              ''school_count''
              [[Map.empty(''location_name'' \<mapsto> Val ''Leeds ua'', ''date'' \<mapsto> Val ''2019-20'',
                          ''school_count'' \<mapsto> Val ''12''),
                Map.empty(''location_name'' \<mapsto> Val ''Atlantis'', ''date'' \<mapsto> Val ''2019-20'',
                          ''school_count'' \<mapsto> Val ''3'')]]
              2019 \<lparr>intermediate = [], transformed = []\<rparr> = Inr (fst (projr X), snd (projr X))"
    using b by (simp only: X_def [symmetric])
  have c: "mappings ''school_count'' = Some school_count
           \<and> ''location_name'' \<in> set (map fst (m_fields school_count))"
    by (simp add: mappings_def school_count_def)
  have e: "length (filter (has_valid_location [''Leeds''])
             (concat [[Map.empty(''location_name'' \<mapsto> Val ''Leeds ua'', ''date'' \<mapsto> Val ''2019-20'',
                          ''school_count'' \<mapsto> Val ''12''),
                Map.empty(''location_name'' \<mapsto> Val ''Atlantis'', ''date'' \<mapsto> Val ''2019-20'',
                          ''school_count'' \<mapsto> Val ''3'')]])) = 1"
    by (simp add: has_valid_location_def clean_location_name_def suffix_to_prefix
                  char_class_defs sublist_code)
  from invalid_locations_stay_empty [THEN mp, OF b'] c e
  have "invalid_locations (fst (projr X)) = {} \<and> total_rows (fst (projr X)) = 1"
    by auto
  with a show ?thesis unfolding Let_def X_def [symmetric] by simp
qed

lemma map_date_to_ontology_entity:
  "p \<noteq> [] \<Longrightarrow> year_of p = Inr y \<Longrightarrow> cey \<le> y \<Longrightarrow>
     fst (map_date_to_ontology L p g cey) =
       (if length p = 4 then Some (time_entity ''Year'' p)
        else if length p = 7 then Some (time_entity ''YearMonth'' p)
        else if length p = 10 then Some (time_entity ''FullDate'' p)
        else if length p = 9 \<and> length (split_on CHR ''-'' p) = 2
          then Some (time_entity ''AcademicYear'' p)
        else None)"
  by (auto simp: map_date_to_ontology_def Let_def split: list.splits)

lemma transform_row_after_date:
  assumes fields: "m_fields m = before @ (''date'', details) # after"
    and dist: "distinct (map fst (m_fields m))"
    and ent: "entity_uri r m uid = Inr entity"
    and pre: "process_fields L r m entity cey before
                (insert (entity, rdf_type, URIRef (m_class m)) g) s = Next g1 s1"
    and cell: "r ''date'' = Some (Val raw)"
    and chk: "checked_value details ''date'' raw = Inr v"
    and res: "transform_row_to_rdf L uid r m g cey s = (ok, g', s')"
  shows "skipped_dates s1 = skipped_dates s"
    and "date_field L m entity cey details v g1 s1 = ReturnFalse g2 s2 \<Longrightarrow> \<not> ok \<and> s' = s2"
    and "date_field L m entity cey details v g1 s1 = Next g2 s2 \<Longrightarrow>
           g2 \<subseteq> g' \<and> skipped_dates s' = skipped_dates s2"
proof -
  let ?g0 = "insert (entity, rdf_type, URIRef (m_class m)) g"
  from fields dist have nb: "''date'' \<notin> fst ` set before" and na: "''date'' \<notin> fst ` set after"
    by auto
  from process_fields_skipped [OF nb, of L r m entity cey ?g0 s] pre
  show "skipped_dates s1 = skipped_dates s" by simp
  have pf: "process_field L r m entity cey (''date'', details) g1 s1
              = date_field L m entity cey details v g1 s1"
    using cell chk by (simp add: process_field_def)
  have all: "process_fields L r m entity cey (m_fields m) ?g0 s =
      (case date_field L m entity cey details v g1 s1 of
         Next g2 s2 \<Rightarrow> process_fields L r m entity cey after g2 s2
       | ReturnFalse g2 s2 \<Rightarrow> ReturnFalse g2 s2
       | Raised e g2 s2 \<Rightarrow> Raised e g2 s2)"
    using fields pre pf by (simp add: process_fields_append)
  show "\<not> ok \<and> s' = s2" if "date_field L m entity cey details v g1 s1 = ReturnFalse g2 s2"
    using that all res ent by (simp add: transform_row_to_rdf_def)
  show "g2 \<subseteq> g' \<and> skipped_dates s' = skipped_dates s2"
    if n: "date_field L m entity cey details v g1 s1 = Next g2 s2"
  proof -
    let ?st = "process_fields L r m entity cey after g2 s2"
    from n all have eq: "process_fields L r m entity cey (m_fields m) ?g0 s = ?st" by simp
    have a: "g2 \<subseteq> step_graph ?st" by (rule process_fields_graph)
    have b: "skipped_dates (step_summary ?st) = skipped_dates s2"
      by (rule process_fields_skipped [OF na])
    from res ent eq a b show ?thesis
      by (cases ?st) (auto simp: transform_row_to_rdf_def)
  qed
qed

text \<open>
  C1, as amended: for a row whose mapping declares the date field, whose entity URI is
  formed without an exception, whose earlier fields pass and whose date cell holds a
  value that passes the field's checks: if \<^verbatim>\<open>parse_date\<close>
  returns no date, or a date whose year is below the common earliest year, or a date in
  range for which \<^verbatim>\<open>map_date_to_ontology\<close> gives no time entity (its length is not 4, 7 or
  10, nor 9 with one dash), the date value is added to \<^verbatim>\<open>skipped_dates\<close> and the row fails;
  if the date is in range and has a time entity, the entity is linked to it and
  \<^verbatim>\<open>skipped_dates\<close> is left as it was.
\<close>

theorem date_skipped_or_linked:
  assumes fields: "m_fields m = before @ (''date'', details) # after"
    and dist: "distinct (map fst (m_fields m))"
    and ent: "entity_uri r m uid = Inr entity"
    and pre: "process_fields L r m entity cey before
                (insert (entity, rdf_type, URIRef (m_class m)) g) s = Next g1 s1"
    and cell: "r ''date'' = Some (Val raw)"
    and chk: "checked_value details ''date'' raw = Inr v"
    and res: "transform_row_to_rdf L uid r m g cey s = (ok, g', s')"
  shows
    "(parse_date L (Val v) (date_format m) = Inr None
        \<or> parse_date L (Val v) (date_format m) = Inr (Some [])
      \<longrightarrow> \<not> ok \<and> skipped_dates s' = insert v (skipped_dates s))
     \<and> (\<forall>p y. parse_date L (Val v) (date_format m) = Inr (Some p) \<and> p \<noteq> []
               \<and> year_of p = Inr y \<and> y < cey
           \<longrightarrow> \<not> ok \<and> skipped_dates s' = insert v (skipped_dates s))
     \<and> (\<forall>p y. parse_date L (Val v) (date_format m) = Inr (Some p) \<and> p \<noteq> []
               \<and> year_of p = Inr y \<and> cey \<le> y
               \<and> fst (map_date_to_ontology L p {} cey) = None
           \<longrightarrow> \<not> ok \<and> skipped_dates s' = insert v (skipped_dates s))
     \<and> (\<forall>p y date_uri. parse_date L (Val v) (date_format m) = Inr (Some p) \<and> p \<noteq> []
               \<and> year_of p = Inr y \<and> cey \<le> y
               \<and> fst (map_date_to_ontology L p {} cey) = Some date_uri
           \<longrightarrow> (entity, d_property details, date_uri) \<in> g'
               \<and> skipped_dates s' = skipped_dates s)
     \<and> (\<forall>p y. p \<noteq> [] \<and> year_of p = Inr y \<and> cey \<le> y
           \<longrightarrow> fst (map_date_to_ontology L p {} cey) =
                 (if length p = 4 then Some (time_entity ''Year'' p)
                  else if length p = 7 then Some (time_entity ''YearMonth'' p)
                  else if length p = 10 then Some (time_entity ''FullDate'' p)
                  else if length p = 9 \<and> length (split_on CHR ''-'' p) = 2
                    then Some (time_entity ''AcademicYear'' p)
                  else None))"
proof -
  note after = transform_row_after_date [OF fields dist ent pre cell chk res]
  have A: "\<not> ok \<and> skipped_dates s' = insert v (skipped_dates s)"
    if "parse_date L (Val v) (date_format m) = Inr None
        \<or> parse_date L (Val v) (date_format m) = Inr (Some [])"
  proof -
    from that have "date_field L m entity cey details v g1 s1 = ReturnFalse g1 (skip_date v s1)"
      by (auto simp: date_field_def)
    from after(2) [OF this] after(1) show ?thesis by (simp add: skip_date_def)
  qed
  have B: "\<not> ok \<and> skipped_dates s' = insert v (skipped_dates s)"
    if "parse_date L (Val v) (date_format m) = Inr (Some p) \<and> p \<noteq> []
               \<and> year_of p = Inr y \<and> y < cey" for p y
  proof -
    from that have "date_field L m entity cey details v g1 s1 = ReturnFalse g1 (skip_date v s1)"
      by (auto simp: date_field_def)
    from after(2) [OF this] after(1) show ?thesis by (simp add: skip_date_def)
  qed
  have C: "\<not> ok \<and> skipped_dates s' = insert v (skipped_dates s)"
    if h: "parse_date L (Val v) (date_format m) = Inr (Some p) \<and> p \<noteq> []
               \<and> year_of p = Inr y \<and> cey \<le> y
               \<and> fst (map_date_to_ontology L p {} cey) = None" for p y
  proof -
    from h map_date_to_ontology_fst [of L p g1 cey]
    obtain g2 where "map_date_to_ontology L p g1 cey = (None, g2)"
      by (cases "map_date_to_ontology L p g1 cey") auto
    with h have "date_field L m entity cey details v g1 s1 = ReturnFalse g2 (skip_date v s1)"
      by (auto simp: date_field_def)
    from after(2) [OF this] after(1) show ?thesis by (simp add: skip_date_def)
  qed
  have D: "(entity, d_property details, date_uri) \<in> g' \<and> skipped_dates s' = skipped_dates s"
    if h: "parse_date L (Val v) (date_format m) = Inr (Some p) \<and> p \<noteq> []
               \<and> year_of p = Inr y \<and> cey \<le> y
               \<and> fst (map_date_to_ontology L p {} cey) = Some date_uri" for p y date_uri
  proof -
    from h map_date_to_ontology_fst [of L p g1 cey]
    obtain g2 where "map_date_to_ontology L p g1 cey = (Some date_uri, g2)"
      by (cases "map_date_to_ontology L p g1 cey") auto
    with h have "date_field L m entity cey details v g1 s1
                   = Next (insert (entity, d_property details, date_uri) g2) s1"
      by (auto simp: date_field_def)
    from after(3) [OF this] after(1) show ?thesis by auto
  qed
  have E: "fst (map_date_to_ontology L p {} cey) =
                 (if length p = 4 then Some (time_entity ''Year'' p)
                  else if length p = 7 then Some (time_entity ''YearMonth'' p)
                  else if length p = 10 then Some (time_entity ''FullDate'' p)
                  else if length p = 9 \<and> length (split_on CHR ''-'' p) = 2
                    then Some (time_entity ''AcademicYear'' p)
                  else None)"
    if "p \<noteq> [] \<and> year_of p = Inr y \<and> cey \<le> y" for p y
    using that map_date_to_ontology_entity [of p y cey L "{}"] by blast
  from A B C D E show ?thesis by blast
qed

theorem date_skipped_or_linked_witness:
  "(let X = transform_row_to_rdf rejecting ''ab12''
              (Map.empty(''date'' \<mapsto> Val ''2019 Q1'', ''unemployment_rate'' \<mapsto> Val ''4.1''))
              unemployment {} 2019 empty_summary;
        Y = transform_row_to_rdf rejecting ''ab12''
              (Map.empty(''date'' \<mapsto> Val ''2018 Q4'', ''unemployment_rate'' \<mapsto> Val ''4.0''))
              unemployment {} 2019 empty_summary
    in (URIRef ''http://example.org/economic#NationalEconomicIndicator/NationalEconomicIndicator_ab12'',
        URIRef ''http://example.org/time#date'',
        URIRef ''http://example.org/time#YearMonth/2019-01'') \<in> fst (snd X)
       \<and> skipped_dates (snd (snd X)) = {}
       \<and> \<not> fst Y \<and> skipped_dates (snd (snd Y)) = {''2018 Q4''})"
proof -
  define r1 :: row where
    "r1 = Map.empty(''date'' \<mapsto> Val ''2019 Q1'', ''unemployment_rate'' \<mapsto> Val ''4.1'')"
  define r2 :: row where
    "r2 = Map.empty(''date'' \<mapsto> Val ''2018 Q4'', ''unemployment_rate'' \<mapsto> Val ''4.0'')"
  define X where "X = transform_row_to_rdf rejecting ''ab12'' r1 unemployment {} 2019 empty_summary"
  define Y where "Y = transform_row_to_rdf rejecting ''ab12'' r2 unemployment {} 2019 empty_summary"
  define entity where "entity = URIRef
    ''http://example.org/economic#NationalEconomicIndicator/NationalEconomicIndicator_ab12''"
  define details where "details = data_property (time_ns @ ''date'') ''gYear''"
  define after where "after =
    [(''unemployment_rate'', data_property (econ_ns @ ''unemploymentRate'') ''decimal'')]"
  have fields: "m_fields unemployment = [] @ (''date'', details) # after"
    by (simp add: unemployment_def details_def after_def)
  have dist: "distinct (map fst (m_fields unemployment))"
    by (simp add: unemployment_def)
  have ent1: "entity_uri r1 unemployment ''ab12'' = Inr entity"
    unfolding r1_def entity_def by code_simp
  have ent2: "entity_uri r2 unemployment ''ab12'' = Inr entity"
    unfolding r2_def entity_def by code_simp
  have pre: "process_fields rejecting r unemployment entity 2019 []
                (insert (entity, rdf_type, URIRef (m_class unemployment)) {}) empty_summary
             = Next (insert (entity, rdf_type, URIRef (m_class unemployment)) {}) empty_summary"
    for r by simp
  have cell1: "r1 ''date'' = Some (Val ''2019 Q1'')" by (simp add: r1_def)
  have cell2: "r2 ''date'' = Some (Val ''2018 Q4'')" by (simp add: r2_def)
  have chk: "checked_value details ''date'' raw = Inr raw" for raw
    by (simp add: checked_value_def details_def data_property_def)
  have res1: "transform_row_to_rdf rejecting ''ab12'' r1 unemployment {} 2019 empty_summary
                = (fst X, fst (snd X), snd (snd X))"
    by (simp add: X_def)
  have res2: "transform_row_to_rdf rejecting ''ab12'' r2 unemployment {} 2019 empty_summary
                = (fst Y, fst (snd Y), snd (snd Y))"
    by (simp add: Y_def)
  have p1: "parse_date rejecting (Val ''2019 Q1'') (date_format unemployment) = Inr (Some ''2019-01'')"
    by code_simp
  have y1: "year_of ''2019-01'' = Inr 2019" by code_simp
  have u1: "fst (map_date_to_ontology rejecting ''2019-01'' {} 2019)
              = Some (URIRef ''http://example.org/time#YearMonth/2019-01'')"
    by code_simp
  have p2: "parse_date rejecting (Val ''2018 Q4'') (date_format unemployment) = Inr (Some ''2018-10'')"
    by code_simp
  have y2: "year_of ''2018-10'' = Inr 2018" by code_simp
  have prp: "d_property details = URIRef ''http://example.org/time#date''"
    by (simp add: details_def data_property_def time_ns_def)
  have sk: "skipped_dates empty_summary = {}" by (simp add: empty_summary_def)
  from date_skipped_or_linked [OF fields dist ent1 pre cell1 chk res1] p1 y1 u1
  have "(entity, d_property details, URIRef ''http://example.org/time#YearMonth/2019-01'')
          \<in> fst (snd X)
        \<and> skipped_dates (snd (snd X)) = skipped_dates empty_summary"
    by auto
  moreover
  from date_skipped_or_linked [OF fields dist ent2 pre cell2 chk res2] p2 y2
  have "\<not> fst Y \<and> skipped_dates (snd (snd Y)) = insert ''2018 Q4'' (skipped_dates empty_summary)"
    by auto
  ultimately show ?thesis
    unfolding Let_def X_def [symmetric] Y_def [symmetric] r1_def [symmetric] r2_def [symmetric]
    by (simp add: prp sk entity_def)
qed

text \<open>
  A date that normalises, with a year above the common earliest year, is neither linked
  nor left out of \<^verbatim>\<open>skipped_dates\<close>: \<^verbatim>\<open>"20190 Q1"\<close> normalises to \<^verbatim>\<open>"20190-01"\<close>, which has
  no time entity.
\<close>

theorem date_in_range_not_linked_counterexample:
  "parse_date rejecting (Val ''20190 Q1'') (date_format unemployment) = Inr (Some ''20190-01'')
   \<and> year_of ''20190-01'' = Inr 20190
   \<and> \<not> fst (transform_row_to_rdf rejecting ''ab12'' (Map.empty(''date'' \<mapsto> Val ''20190 Q1''))
              unemployment {} 2019 empty_summary)
   \<and> skipped_dates (snd (snd
        (transform_row_to_rdf rejecting ''ab12'' (Map.empty(''date'' \<mapsto> Val ''20190 Q1''))
              unemployment {} 2019 empty_summary))) = {''20190 Q1''}"
proof -
  define r :: row where "r = Map.empty(''date'' \<mapsto> Val ''20190 Q1'')"
  define X where "X = transform_row_to_rdf rejecting ''ab12'' r unemployment {} 2019 empty_summary"
  define entity where "entity = URIRef
    ''http://example.org/economic#NationalEconomicIndicator/NationalEconomicIndicator_ab12''"
  define details where "details = data_property (time_ns @ ''date'') ''gYear''"
  define after where "after =
    [(''unemployment_rate'', data_property (econ_ns @ ''unemploymentRate'') ''decimal'')]"
  define g1 :: graph where "g1 = insert (entity, rdf_type, URIRef (m_class unemployment)) {}"
  have fields: "m_fields unemployment = [] @ (''date'', details) # after"
    by (simp add: unemployment_def details_def after_def)
  have dist: "distinct (map fst (m_fields unemployment))"
    by (simp add: unemployment_def)
  have ent: "entity_uri r unemployment ''ab12'' = Inr entity"
    unfolding r_def entity_def by code_simp
  have pre: "process_fields rejecting r unemployment entity 2019 []
                (insert (entity, rdf_type, URIRef (m_class unemployment)) {}) empty_summary
             = Next g1 empty_summary"
    by (simp add: g1_def)
  have cell: "r ''date'' = Some (Val ''20190 Q1'')" by (simp add: r_def)
  have chk: "checked_value details ''date'' ''20190 Q1'' = Inr ''20190 Q1''"
    by (simp add: checked_value_def details_def data_property_def)
  have res: "transform_row_to_rdf rejecting ''ab12'' r unemployment {} 2019 empty_summary
                = (fst X, fst (snd X), snd (snd X))"
    by (simp add: X_def)
  have p: "parse_date rejecting (Val ''20190 Q1'') (date_format unemployment)
             = Inr (Some ''20190-01'')"
    by code_simp
  have y: "year_of ''20190-01'' = Inr 20190" by code_simp
  have md: "map_date_to_ontology rejecting ''20190-01'' g1 2019 = (None, g1)"
    using y by (simp add: map_date_to_ontology_def)
  have df: "date_field rejecting unemployment entity 2019 details ''20190 Q1'' g1 empty_summary
              = ReturnFalse g1 (skip_date ''20190 Q1'' empty_summary)"
    using p y md by (simp add: date_field_def)
  from transform_row_after_date(2) [OF fields dist ent pre cell chk res df]
  have "\<not> fst X \<and> skipped_dates (snd (snd X)) = {''20190 Q1''}"
    by (simp add: skip_date_def empty_summary_def)
  with p y show ?thesis
    unfolding X_def r_def by simp
qed

lemma fold_min_foldl: "fold min ys (y::int) = foldl min y ys"
  by (induction ys arbitrary: y) (simp_all add: min.commute)

lemma fold_max_foldl: "fold max ys (y::int) = foldl max y ys"
  by (induction ys arbitrary: y) (simp_all add: max.commute)

lemma foldl_min_Min: "foldl min (y::int) ys = Min (set (y # ys))"
  by (simp only: Min.set_eq_fold fold_min_foldl)

lemma foldl_max_Max: "foldl max (y::int) ys = Max (set (y # ys))"
  by (simp only: Max.set_eq_fold fold_max_foldl)

lemma set_not_none: "set (not_none xs) = {x. Some x \<in> set xs}"
  by (induction xs rule: not_none.induct) auto

lemma sequence_all_Inr:
  "\<forall>x \<in> set xs. \<exists>a. f x = Inr a \<Longrightarrow> sequence (map f xs) = Inr (map (\<lambda>x. projr (f x)) xs)"
  by (induction xs) auto

lemma sequence_Inl:
  "x \<in> set xs \<Longrightarrow> x = Inl e \<Longrightarrow> \<exists>e'. sequence xs = Inl e'"
  by (induction xs) (auto split: sum.splits)

lemma extract_earliest_year_min:
  assumes m: "MS (source_name src) = Some m"
    and col: "date_column (concat (processed src)) = Inr col"
    and ok: "\<forall>x \<in> set col. \<exists>p. parse_date L (Val (str_cell x)) (date_format m) = Inr p
               \<and> (\<exists>y. year_cell p = Inr y)"
  shows "extract_earliest_year L MS src =
           (if {y. \<exists>x \<in> set col. \<exists>p. parse_date L (Val (str_cell x)) (date_format m) = Inr p
                     \<and> year_cell p = Inr (Some y)} = {} then None
            else Some (Min {y. \<exists>x \<in> set col. \<exists>p.
                     parse_date L (Val (str_cell x)) (date_format m) = Inr p
                     \<and> year_cell p = Inr (Some y)}))"
proof -
  let ?f = "\<lambda>x. case MS (source_name src) of
                   None \<Rightarrow> Inl KeyError
                 | Some m \<Rightarrow> parse_date L (Val (str_cell x)) (date_format m)"
  let ?P = "\<lambda>x. projr (parse_date L (Val (str_cell x)) (date_format m))"
  let ?Y = "{y. \<exists>x \<in> set col. \<exists>p. parse_date L (Val (str_cell x)) (date_format m) = Inr p
                     \<and> year_cell p = Inr (Some y)}"
  have f: "?f = (\<lambda>x. parse_date L (Val (str_cell x)) (date_format m))"
    using m by simp
  from ok have "\<forall>x \<in> set col. \<exists>a. parse_date L (Val (str_cell x)) (date_format m) = Inr a"
    by blast
  from sequence_all_Inr [where f = "\<lambda>x. parse_date L (Val (str_cell x)) (date_format m)", OF this]
  have s1: "sequence (map ?f col) = Inr (map ?P col)"
    by (simp only: f)
  from ok have "\<forall>p \<in> set (map ?P col). \<exists>a. year_cell p = Inr a"
    by fastforce
  from sequence_all_Inr [where f = year_cell, OF this]
  have s2: "sequence (map year_cell (map ?P col))
              = Inr (map (\<lambda>p. projr (year_cell p)) (map ?P col))" .
  have Y: "set (not_none (map (\<lambda>p. projr (year_cell p)) (map ?P col))) = ?Y"
  proof -
    have "set (not_none (map (\<lambda>p. projr (year_cell p)) (map ?P col)))
            = {y. \<exists>x \<in> set col. projr (year_cell (?P x)) = Some y}"
      by (force simp: set_not_none)
    also have "\<dots> = ?Y"
    proof (intro set_eqI iffI; clarsimp)
      fix y x
      assume x: "x \<in> set col" and y: "projr (year_cell (?P x)) = Some y"
      from ok x obtain p z where p: "parse_date L (Val (str_cell x)) (date_format m) = Inr p"
        "year_cell p = Inr z" by blast
      with y have "year_cell p = Inr (Some y)" by simp
      with x p show "\<exists>x \<in> set col. \<exists>p. parse_date L (Val (str_cell x)) (date_format m) = Inr p
                       \<and> year_cell p = Inr (Some y)" by blast
    next
      fix y x p
      assume "x \<in> set col" "parse_date L (Val (str_cell x)) (date_format m) = Inr p"
        "year_cell p = Inr (Some y)"
      then show "\<exists>x \<in> set col. projr (year_cell (?P x)) = Some y"
        by (intro bexI [of _ x]) simp_all
    qed
    finally show ?thesis .
  qed
  show ?thesis
  proof (cases "not_none (map (\<lambda>p. projr (year_cell p)) (map ?P col))")
    case Nil
    with Y have "?Y = {}" by simp
    with Nil col s1 s2 show ?thesis
      by (simp add: extract_earliest_year_def)
  next
    case (Cons y ys)
    with Y have Yeq: "?Y = set (y # ys)" by simp
    then have ne: "?Y \<noteq> {}" by simp
    from Cons col s1 s2 have "extract_earliest_year L MS src = Some (foldl min y ys)"
      by (simp add: extract_earliest_year_def)
    also have "foldl min y ys = Min (set (y # ys))" by (rule foldl_min_Min)
    also have "set (y # ys) = ?Y" by (rule Yeq [symmetric])
    finally have "extract_earliest_year L MS src = Some (Min ?Y)" .
    with ne show ?thesis by (simp only: if_False)
  qed
qed

lemma extract_earliest_year_raise:
  assumes m: "MS (source_name src) = Some m"
    and col: "date_column (concat (processed src)) = Inr col"
    and x: "x \<in> set col"
    and bad: "(\<exists>e. parse_date L (Val (str_cell x)) (date_format m) = Inl e)
              \<or> (\<exists>p e. parse_date L (Val (str_cell x)) (date_format m) = Inr p
                        \<and> year_cell p = Inl e)"
  shows "extract_earliest_year L MS src = None"
proof -
  let ?f = "\<lambda>x. case MS (source_name src) of
                   None \<Rightarrow> Inl KeyError
                 | Some m \<Rightarrow> parse_date L (Val (str_cell x)) (date_format m)"
  have f: "?f x = parse_date L (Val (str_cell x)) (date_format m)" for x
    using m by simp
  show ?thesis
  proof (cases "sequence (map ?f col)")
    case (Inl e)
    with col show ?thesis by (simp add: extract_earliest_year_def)
  next
    case (Inr parsed)
    then have mp: "map ?f col = map Inr parsed" by (simp only: sequence_Inr)
    from x have "?f x \<in> set (map ?f col)" by simp
    with mp have "?f x \<in> set (map Inr parsed)" by simp
    then obtain p where p: "p \<in> set parsed" "?f x = Inr p" by auto
    with bad f obtain e where e: "year_cell p = Inl e" by auto
    with p have "Inl e \<in> set (map year_cell parsed)" by force
    from sequence_Inl [OF this refl] obtain e' where
      "sequence (map year_cell parsed) = Inl e'" by blast
    with col Inr show ?thesis by (simp add: extract_earliest_year_def)
  qed
qed

lemma find_common_earliest_year_max:
  "find_common_earliest_year L MS srcs =
     (if \<forall>src \<in> set srcs. extract_earliest_year L MS src = None then None
      else Some (Max {y. \<exists>src \<in> set srcs. extract_earliest_year L MS src = Some y}))"
proof -
  let ?ys = "not_none (map (extract_earliest_year L MS) srcs)"
  let ?Y = "{y. \<exists>src \<in> set srcs. extract_earliest_year L MS src = Some y}"
  have S: "set ?ys = ?Y"
    by (force simp: set_not_none)
  show ?thesis
  proof (cases ?ys)
    case Nil
    with S have empty: "?Y = {}" by simp
    have none: "extract_earliest_year L MS src = None" if "src \<in> set srcs" for src
    proof (cases "extract_earliest_year L MS src")
      case None
      then show ?thesis .
    next
      case (Some y)
      with that have "y \<in> ?Y" by blast
      with empty show ?thesis by simp
    qed
    from Nil have "find_common_earliest_year L MS srcs = None"
      by (simp add: find_common_earliest_year_def)
    with none show ?thesis by simp
  next
    case (Cons y ys)
    with S have Yeq: "?Y = set (y # ys)" by simp
    then have "y \<in> ?Y" by simp
    then obtain src where "src \<in> set srcs" "extract_earliest_year L MS src = Some y" by blast
    then have ne: "\<not> (\<forall>src \<in> set srcs. extract_earliest_year L MS src = None)" by force
    from Cons have "find_common_earliest_year L MS srcs = Some (foldl max y ys)"
      by (simp add: find_common_earliest_year_def)
    also have "foldl max y ys = Max (set (y # ys))" by (rule foldl_max_Max)
    also have "set (y # ys) = ?Y" by (rule Yeq [symmetric])
    finally have "find_common_earliest_year L MS srcs = Some (Max ?Y)" .
    with ne show ?thesis by (simp only: if_False)
  qed
qed

lemma extract_earliest_year_unreadable:
  "MS (source_name src) = None \<or> (\<exists>e. date_column (concat (processed src)) = Inl e)
     \<Longrightarrow> extract_earliest_year L MS src = None"
proof (cases "date_column (concat (processed src))")
  case (Inl e)
  then show ?thesis by (simp add: extract_earliest_year_def)
next
  case (Inr col)
  assume "MS (source_name src) = None \<or> (\<exists>e. date_column (concat (processed src)) = Inl e)"
  with Inr have "MS (source_name src) = None" by simp
  with Inr show ?thesis
    by (cases col) (simp_all add: extract_earliest_year_def)
qed

text \<open>
  C2, as amended: \<^verbatim>\<open>find_common_earliest_year\<close> returns the maximum of the years that the
  sources yield, and no value when no source yields one, in which case \<^verbatim>\<open>main\<close> returns
  before any row is transformed; for the minima 2005, 2010 and 1995 it returns 2010. A
  source yields the minimum of the years of its rows when no row raises: the rows for
  which \<^verbatim>\<open>parse_date\<close> returns no date are ignored. A source in which some row raises, in
  \<^verbatim>\<open>parse_date\<close> or when the year is read from the normalised date, yields nothing, and so
  does a source without a mapping or without a readable date column.
\<close>

theorem common_earliest_year_max_of_min:
  "find_common_earliest_year L MS srcs =
     (if \<forall>src \<in> set srcs. extract_earliest_year L MS src = None then None
      else Some (Max {y. \<exists>src \<in> set srcs. extract_earliest_year L MS src = Some y}))
   \<and> (MS (source_name src) = Some m \<and> date_column (concat (processed src)) = Inr col
        \<and> (\<forall>x \<in> set col. \<exists>p. parse_date L (Val (str_cell x)) (date_format m) = Inr p
               \<and> (\<exists>y. year_cell p = Inr y))
      \<longrightarrow> extract_earliest_year L MS src =
           (if {y. \<exists>x \<in> set col. \<exists>p. parse_date L (Val (str_cell x)) (date_format m) = Inr p
                     \<and> year_cell p = Inr (Some y)} = {} then None
            else Some (Min {y. \<exists>x \<in> set col. \<exists>p.
                     parse_date L (Val (str_cell x)) (date_format m) = Inr p
                     \<and> year_cell p = Inr (Some y)})))
   \<and> (MS (source_name src) = Some m \<and> date_column (concat (processed src)) = Inr col
        \<and> x \<in> set col
        \<and> ((\<exists>e. parse_date L (Val (str_cell x)) (date_format m) = Inl e)
              \<or> (\<exists>p e. parse_date L (Val (str_cell x)) (date_format m) = Inr p
                        \<and> year_cell p = Inl e))
      \<longrightarrow> extract_earliest_year L MS src = None)
   \<and> (MS (source_name src) = None \<or> (\<exists>e. date_column (concat (processed src)) = Inl e)
      \<longrightarrow> extract_earliest_year L MS src = None)
   \<and> (map (extract_earliest_year L MS) srcs = [Some 2005, Some 2010, Some 1995]
      \<longrightarrow> find_common_earliest_year L MS srcs = Some 2010)
   \<and> (find_common_earliest_year L MS srcs = None \<longrightarrow> main L VL MS U srcs st = Inr ([], st))"
proof (intro conjI impI)
  show "find_common_earliest_year L MS srcs =
     (if \<forall>src \<in> set srcs. extract_earliest_year L MS src = None then None
      else Some (Max {y. \<exists>src \<in> set srcs. extract_earliest_year L MS src = Some y}))"
    by (rule find_common_earliest_year_max)
  show "extract_earliest_year L MS src =
           (if {y. \<exists>x \<in> set col. \<exists>p. parse_date L (Val (str_cell x)) (date_format m) = Inr p
                     \<and> year_cell p = Inr (Some y)} = {} then None
            else Some (Min {y. \<exists>x \<in> set col. \<exists>p.
                     parse_date L (Val (str_cell x)) (date_format m) = Inr p
                     \<and> year_cell p = Inr (Some y)}))"
    if "MS (source_name src) = Some m \<and> date_column (concat (processed src)) = Inr col
        \<and> (\<forall>x \<in> set col. \<exists>p. parse_date L (Val (str_cell x)) (date_format m) = Inr p
               \<and> (\<exists>y. year_cell p = Inr y))"
    using that by (intro extract_earliest_year_min) blast+
  show "extract_earliest_year L MS src = None"
    if "MS (source_name src) = Some m \<and> date_column (concat (processed src)) = Inr col
        \<and> x \<in> set col
        \<and> ((\<exists>e. parse_date L (Val (str_cell x)) (date_format m) = Inl e)
              \<or> (\<exists>p e. parse_date L (Val (str_cell x)) (date_format m) = Inr p
                        \<and> year_cell p = Inl e))"
    using that by (intro extract_earliest_year_raise [of MS src m col x L]) blast+
  show "extract_earliest_year L MS src = None"
    if "MS (source_name src) = None \<or> (\<exists>e. date_column (concat (processed src)) = Inl e)"
    using that by (rule extract_earliest_year_unreadable)
  show "find_common_earliest_year L MS srcs = Some 2010"
    if "map (extract_earliest_year L MS) srcs = [Some 2005, Some 2010, Some 1995]"
    using that by (simp add: find_common_earliest_year_def)
  show "main L VL MS U srcs st = Inr ([], st)"
    if "find_common_earliest_year L MS srcs = None"
    using that by (simp add: main_def)
qed

theorem common_earliest_year_max_of_min_witness:
  "map (extract_earliest_year rejecting (mappings(''claimant_count'' \<mapsto> unemployment)))
     [\<lparr>source_name = ''unemployment'',
       processed = [[Map.empty(''date'' \<mapsto> Val ''2005 Q1''), Map.empty(''date'' \<mapsto> Val ''2007 q3'')]]\<rparr>,
      \<lparr>source_name = ''school_count'',
       processed = [[Map.empty(''date'' \<mapsto> Val ''2010-11 [note 1]'')]]\<rparr>,
      \<lparr>source_name = ''claimant_count'',
       processed = [[Map.empty(''date'' \<mapsto> Val ''1995 Q4''), Map.empty(''date'' \<mapsto> Val ''n/a'')]]\<rparr>]
     = [Some 2005, Some 2010, Some 1995]
   \<and> find_common_earliest_year rejecting (mappings(''claimant_count'' \<mapsto> unemployment))
     [\<lparr>source_name = ''unemployment'',
       processed = [[Map.empty(''date'' \<mapsto> Val ''2005 Q1''), Map.empty(''date'' \<mapsto> Val ''2007 q3'')]]\<rparr>,
      \<lparr>source_name = ''school_count'',
       processed = [[Map.empty(''date'' \<mapsto> Val ''2010-11 [note 1]'')]]\<rparr>,
      \<lparr>source_name = ''claimant_count'',
       processed = [[Map.empty(''date'' \<mapsto> Val ''1995 Q4''), Map.empty(''date'' \<mapsto> Val ''n/a'')]]\<rparr>]
     = Some 2010"
proof -
  have h: "map (extract_earliest_year rejecting (mappings(''claimant_count'' \<mapsto> unemployment)))
     [\<lparr>source_name = ''unemployment'',
       processed = [[Map.empty(''date'' \<mapsto> Val ''2005 Q1''), Map.empty(''date'' \<mapsto> Val ''2007 q3'')]]\<rparr>,
      \<lparr>source_name = ''school_count'',
       processed = [[Map.empty(''date'' \<mapsto> Val ''2010-11 [note 1]'')]]\<rparr>,
      \<lparr>source_name = ''claimant_count'',
       processed = [[Map.empty(''date'' \<mapsto> Val ''1995 Q4''), Map.empty(''date'' \<mapsto> Val ''n/a'')]]\<rparr>]
     = [Some 2005, Some 2010, Some 1995]"
    by code_simp
  note th = common_earliest_year_max_of_min
         [where L = rejecting and MS = "mappings(''claimant_count'' \<mapsto> unemployment)"
            and srcs = "[\<lparr>source_name = ''unemployment'',
       processed = [[Map.empty(''date'' \<mapsto> Val ''2005 Q1''), Map.empty(''date'' \<mapsto> Val ''2007 q3'')]]\<rparr>,
      \<lparr>source_name = ''school_count'',
       processed = [[Map.empty(''date'' \<mapsto> Val ''2010-11 [note 1]'')]]\<rparr>,
      \<lparr>source_name = ''claimant_count'',
       processed = [[Map.empty(''date'' \<mapsto> Val ''1995 Q4''), Map.empty(''date'' \<mapsto> Val ''n/a'')]]\<rparr>]",
          THEN conjunct2, THEN conjunct2, THEN conjunct2, THEN conjunct2, THEN conjunct1,
          THEN mp, OF h]
  from h th show ?thesis by (rule conjI)
qed

text \<open>
  One row that raises voids its source, whatever the other rows hold: here the only
  source has a row of the year 2019, and no common earliest year is found.
\<close>

theorem common_earliest_year_source_voided_counterexample:
  "find_common_earliest_year rejecting mappings
     [\<lparr>source_name = ''unemployment'',
       processed = [[Map.empty(''date'' \<mapsto> Val ''2019 Q1''),
                     Map.empty(''date'' \<mapsto> Val ''20x9 Q1'')]]\<rparr>] = None
   \<and> find_common_earliest_year rejecting mappings
     [\<lparr>source_name = ''unemployment'',
       processed = [[Map.empty(''date'' \<mapsto> Val ''2019 Q1''),
                     Map.empty(''date'' \<mapsto> Val ''2018 Q9'')]]\<rparr>] = None
   \<and> parse_date rejecting (Val ''2019 Q1'') (date_format unemployment) = Inr (Some ''2019-01'')
   \<and> year_of ''2019-01'' = Inr 2019"
  by code_simp

lemma delete_all_keys:
  "foldr (\<lambda>f. AList.delete (fst f)) fs xs = filter (\<lambda>p. fst p \<notin> fst ` set fs) xs"
proof (induction fs)
  case Nil
  then show ?case by simp
next
  case (Cons f fs)
  have "AList.delete (fst f) (filter (\<lambda>p. fst p \<notin> fst ` set fs) xs)
          = filter (\<lambda>p. fst p \<notin> fst ` set (f # fs)) xs"
    by (induction xs) (auto simp: AList.delete_eq)
  with Cons show ?case by simp
qed

lemma chunk_files_Nil: "chunk_files st = [] \<longleftrightarrow> intermediate st = []"
  using set_chunk_files [of st] by (metis set_empty)

lemma combine_ttl_files_raises:
  assumes "Unreadable \<in> snd ` set (intermediate st)"
  shows "combine_ttl_files name st = Inl (ParserError, st)"
proof -
  from assms have "intermediate st \<noteq> []" by auto
  then have ne: "chunk_files st \<noteq> []" by (simp add: chunk_files_Nil)
  from assms have "Unreadable \<in> set (map snd (chunk_files st))"
    by (simp add: set_chunk_files)
  with ne show ?thesis
    by (simp add: combine_ttl_files_def parse_all_union)
qed

lemma combine_ttl_files_no_chunk:
  "intermediate st = [] \<Longrightarrow> combine_ttl_files name st = Inl (ValueError, st)"
  by (simp add: combine_ttl_files_def chunk_files_def)

lemma combine_ttl_files_merges:
  assumes ne: "intermediate st \<noteq> []"
    and ok: "Unreadable \<notin> snd ` set (intermediate st)"
    and valid: "\<forall>t \<in> \<Union> {h. Turtle h \<in> snd ` set (intermediate st)}.
                  valid_node (fst t) \<and> valid_node (fst (snd t)) \<and> valid_node (snd (snd t))"
  shows "\<exists>st'. combine_ttl_files name st = Inr st' \<and> intermediate st' = []
           \<and> map_of (transformed st') name
               = Some (\<Union> {h. Turtle h \<in> snd ` set (intermediate st)})"
proof -
  from ne have c: "chunk_files st \<noteq> []"
    by (simp add: chunk_files_Nil)
  from ok have nu: "Unreadable \<notin> set (map snd (chunk_files st))"
    by (simp add: set_chunk_files)
  have s: "set (map snd (chunk_files st)) = snd ` set (intermediate st)"
    by (simp add: set_chunk_files)
  have d: "foldr (\<lambda>f. AList.delete (fst f)) (chunk_files st) (intermediate st) = []"
    by (simp add: delete_all_keys set_chunk_files)
  have p: "parse_all (map snd (chunk_files st)) {}
             = Inr (\<Union> {h. Turtle h \<in> snd ` set (intermediate st)})"
    using nu s by (simp only: parse_all_union if_False Un_empty_left)
  from valid have w: "serialize (\<Union> {h. Turtle h \<in> snd ` set (intermediate st)})
                        = Inr (Turtle (\<Union> {h. Turtle h \<in> snd ` set (intermediate st)}))"
    by (simp add: serialize_def)
  show ?thesis
    by (simp add: combine_ttl_files_def c p w d update_conv')
qed

lemma process_sources_append:
  "process_sources L VL MS U cey (xs @ ys) st =
     (case process_sources L VL MS U cey xs st of
        Inl err \<Rightarrow> Inl err
      | Inr (sums, st1) \<Rightarrow>
          (case process_sources L VL MS U cey ys st1 of
             Inl err \<Rightarrow> Inl err
           | Inr (sums2, st2) \<Rightarrow> Inr (sums @ sums2, st2)))"
  by (induction xs arbitrary: st) (auto split: sum.splits prod.splits)

text \<open>
  C5, as amended: when a chunk file does not parse, \<^verbatim>\<open>combine_ttl_files\<close> raises, writes no
  combined file and deletes no chunk file; it raises as well when the scratch directory
  holds no chunk file. Neither it nor the loop of \<^verbatim>\<open>main\<close> catches the exception, so the
  run ends there: the sources before the failing one have been completed, the sources
  after it are not processed. When there are chunk files, each parses and the union of
  their graphs can be written, the combined file holds that union and the chunk files are
  deleted.
\<close>

theorem merge_failure_ends_run:
  "(Unreadable \<in> snd ` set (intermediate st) \<longrightarrow>
      combine_ttl_files name st = Inl (ParserError, st))
   \<and> (intermediate st = [] \<longrightarrow> combine_ttl_files name st = Inl (ValueError, st))
   \<and> (intermediate st \<noteq> [] \<and> Unreadable \<notin> snd ` set (intermediate st)
        \<and> (\<forall>t \<in> \<Union> {h. Turtle h \<in> snd ` set (intermediate st)}.
              valid_node (fst t) \<and> valid_node (fst (snd t)) \<and> valid_node (snd (snd t)))
      \<longrightarrow> (\<exists>st'. combine_ttl_files name st = Inr st' \<and> intermediate st' = []
             \<and> map_of (transformed st') name
                 = Some (\<Union> {h. Turtle h \<in> snd ` set (intermediate st)})))
   \<and> (load_and_transform_data L VL MS (U (source_name src)) (source_name src) (processed src)
          cey st = Inr (s, st1)
        \<and> combine_ttl_files (source_name src) st1 = Inl err
      \<longrightarrow> process_sources L VL MS U cey (src # rest) st = Inl err)
   \<and> (process_sources L VL MS U cey before st = Inr (sums, st1)
        \<and> process_sources L VL MS U cey (src # rest) st1 = Inl err
      \<longrightarrow> process_sources L VL MS U cey (before @ src # rest) st = Inl err)"
proof (intro conjI impI)
  show "combine_ttl_files name st = Inl (ParserError, st)"
    if "Unreadable \<in> snd ` set (intermediate st)"
    using that by (rule combine_ttl_files_raises)
  show "combine_ttl_files name st = Inl (ValueError, st)" if "intermediate st = []"
    using that by (rule combine_ttl_files_no_chunk)
  show "\<exists>st'. combine_ttl_files name st = Inr st' \<and> intermediate st' = []
           \<and> map_of (transformed st') name
               = Some (\<Union> {h. Turtle h \<in> snd ` set (intermediate st)})"
    if "intermediate st \<noteq> [] \<and> Unreadable \<notin> snd ` set (intermediate st)
        \<and> (\<forall>t \<in> \<Union> {h. Turtle h \<in> snd ` set (intermediate st)}.
              valid_node (fst t) \<and> valid_node (fst (snd t)) \<and> valid_node (snd (snd t)))"
    using that by (intro combine_ttl_files_merges) blast+
  show "process_sources L VL MS U cey (src # rest) st = Inl err"
    if "load_and_transform_data L VL MS (U (source_name src)) (source_name src) (processed src)
          cey st = Inr (s, st1)
        \<and> combine_ttl_files (source_name src) st1 = Inl err"
    using that by simp
  show "process_sources L VL MS U cey (before @ src # rest) st = Inl err"
    if "process_sources L VL MS U cey before st = Inr (sums, st1)
        \<and> process_sources L VL MS U cey (src # rest) st1 = Inl err"
    using that by (simp only: process_sources_append sum.case prod.case)
qed

theorem merge_failure_ends_run_witness:
  "Unreadable \<in> snd ` set (intermediate \<lparr>intermediate = [(7, Unreadable)], transformed = []\<rparr>)
   \<and> combine_ttl_files ''unemployment'' \<lparr>intermediate = [(7, Unreadable)], transformed = []\<rparr>
       = Inl (ParserError, \<lparr>intermediate = [(7, Unreadable)], transformed = []\<rparr>)
   \<and> combine_ttl_files ''unemployment'' \<lparr>intermediate = [], transformed = []\<rparr>
       = Inl (ValueError, \<lparr>intermediate = [], transformed = []\<rparr>)"
proof -
  have h: "Unreadable \<in> snd ` set (intermediate \<lparr>intermediate = [(7, Unreadable)], transformed = []\<rparr>)"
    by simp
  have e: "intermediate \<lparr>intermediate = [], transformed = []\<rparr> = []"
    by simp
  note a = merge_failure_ends_run
         [where st = "\<lparr>intermediate = [(7, Unreadable)], transformed = []\<rparr>"
            and name = "''unemployment''", THEN conjunct1, THEN mp, OF h]
  note b = merge_failure_ends_run
         [where st = "\<lparr>intermediate = [], transformed = []\<rparr>"
            and name = "''unemployment''", THEN conjunct2, THEN conjunct1, THEN mp, OF e]
  from h a b show ?thesis by simp
qed

text \<open>
  A run over two sources with an unreadable chunk file in the scratch directory: the
  merge of the first source raises, the exception leaves \<^verbatim>\<open>main\<close>, and the second source
  is never transformed (no file is written for it).
\<close>

theorem merge_failure_ends_run_counterexample:
  "main rejecting [''Leeds''] mappings (\<lambda>n c i. ''ab12'')
     [\<lparr>source_name = ''unemployment'', processed = [[]]\<rparr>,
      \<lparr>source_name = ''school_count'',
       processed = [[Map.empty(''date'' \<mapsto> Val ''2010-11'', ''location_name'' \<mapsto> Val ''Leeds'',
                               ''school_count'' \<mapsto> Val ''12'')]]\<rparr>]
     \<lparr>intermediate = [(7, Unreadable)], transformed = []\<rparr>
   = Inl (ParserError, \<lparr>intermediate = [(7, Unreadable)], transformed = []\<rparr>)"
proof -
  have fc: "find_common_earliest_year rejecting mappings
     [\<lparr>source_name = ''unemployment'', processed = [[]]\<rparr>,
      \<lparr>source_name = ''school_count'',
       processed = [[Map.empty(''date'' \<mapsto> Val ''2010-11'', ''location_name'' \<mapsto> Val ''Leeds'',
                               ''school_count'' \<mapsto> Val ''12'')]]\<rparr>] = Some 2010"
    by code_simp
  have m: "mappings ''unemployment'' = Some unemployment"
    by (simp add: mappings_def)
  have ld: "load_and_transform_data rejecting [''Leeds''] mappings (\<lambda>c i. ''ab12'') ''unemployment''
              [[]] 2010 \<lparr>intermediate = [(7, Unreadable)], transformed = []\<rparr>
            = Inr (empty_summary, \<lparr>intermediate = [(7, Unreadable)], transformed = []\<rparr>)"
    by (simp add: load_and_transform_data_def m)
  have cb: "combine_ttl_files ''unemployment'' \<lparr>intermediate = [(7, Unreadable)], transformed = []\<rparr>
       = Inl (ParserError, \<lparr>intermediate = [(7, Unreadable)], transformed = []\<rparr>)"
    by (rule combine_ttl_files_raises) simp
  show ?thesis
    by (simp add: main_def fc ld cb)
qed

end
